theory Spec2Isabelle
  imports Complex_Main "HOL-Library.Sublist"
begin

section \<open>Values shared by the two runbooks\<close>

text \<open>
  The repository holds two Python scripts, \<^verbatim>\<open>backupsnappy.py\<close> (snapshot creation) and
  \<^verbatim>\<open>deletionsnappy.py\<close> (snapshot expiration). Both drive the library \<^verbatim>\<open>afs_snappy\<close>,
  which is not part of the sources: its classes are the environment of the model.

  \<open>exn\<close> stands for the instances of Python's \<^verbatim>\<open>Exception\<close> (and its subclasses), that is,
  for what \<^verbatim>\<open>except Exception\<close> catches. \<^verbatim>\<open>sys.exit(n)\<close> raises \<^verbatim>\<open>SystemExit\<close>, which is not
  an \<^verbatim>\<open>Exception\<close>; \<open>control\<close> keeps the two apart.
\<close>

datatype exn = Exception string | TypeError string | ValueError string

datatype control = Raise exn | Exit int

text \<open>
  A \<^verbatim>\<open>datetime\<close> is a point of the time line, counted in microseconds. The difference of
  two of them is a \<^verbatim>\<open>timedelta\<close>, which Python keeps normalised: \<^verbatim>\<open>0 <= seconds < 86400\<close>,
  \<^verbatim>\<open>0 <= microseconds < 1000000\<close>, the sign carried by \<^verbatim>\<open>days\<close> alone.
\<close>

type_synonym datetime = int

record timedelta =
  days :: int
  seconds :: int
  microseconds :: int

definition datetime_sub :: "datetime \<Rightarrow> datetime \<Rightarrow> timedelta" where
  "datetime_sub a b =
     (let us = a - b
      in \<lparr>days = us div 86400000000,
          seconds = (us mod 86400000000) div 1000000,
          microseconds = us mod 1000000\<rparr>)"

record snapshot =
  name :: string
  created_at :: datetime
  retention_days :: "int option"

record counted =
  total :: int

record afs_listing = counted +
  afs_list :: "string list"

record snapshot_listing = counted +
  snapshots :: "snapshot list"

datatype alert_type = SUCCESS | FAIL

text \<open>
  Every f-string of the scripts that is logged or sent as an alert message is a constructor
  of \<open>message\<close>; its arguments are the interpolated values, in the order of the text.
\<close>

datatype message =
    Starting_deletion_job string
  | Starting_creation_job bool string
  | Type_line string
  | Script_version string
  | Customer_ID string
  | Fetching_managed_identity_token
  | Validating_storage_dependencies string
  | Fetching_AFS_volumes string
  | No_AFS_volumes_found string
  | Total_AFS_found string int
  | Iterating_the_list
  | Iterating_over_the_list
  | Validating_AFS_exists
  | Validating_AFS string
  | Deletion_job_completed int string
  | Creation_job_completed int string
  | Error_deletion_runbook exn string
  | Error_backup_runbook exn string
  | Fetching_snapshots_list
  | No_snapshots_in_AFS string string
  | Snapshots_found int
  | Deleting_snapshot string
  | Snapshots_deleted_in_AFS int string string
  | Skipping_AFS string exn string
  | Unable_to_delete string exn string
  | Checking_soft_delete string
  | Soft_delete_already_enabled string
  | Enabling_soft_delete string int
  | Skipping_softdelete_enablement string exn string
  | Validating_snapshot_storage_limit int string
  | Creating_snapshot_backup bool string string
  | Skipping_create_snapshot string exn string
  | Skipping_already_created_check string
  | Already_created_today string

record alert =
  alert_kind :: alert_type
  start_time :: datetime
  message :: "message option"
  db_name :: "string option"

section \<open>The environment\<close>

text \<open>
  Each call into \<^verbatim>\<open>afs_snappy\<close>, the clock and \<^verbatim>\<open>uuid4\<close> is a call of the environment.
  The run counts these calls in \<open>tick\<close>, and the environment answers a call from its
  arguments and from the number of calls made before it, so that a backend may answer
  the same question differently later in the run, and the clock may show a new time at
  every reading.

  What the model takes for granted about the missing library: the constructors
  (\<^verbatim>\<open>Watcher\<close>, \<^verbatim>\<open>TICHttpBasedAlerting\<close>, \<^verbatim>\<open>StorageManager\<close>, \<^verbatim>\<open>AFSManager\<close>) only store their
  arguments; the logger, \<^verbatim>\<open>get_current_datetime\<close> and \<^verbatim>\<open>uuid4\<close> do not raise; a backend call
  fails with an \<^verbatim>\<open>Exception\<close>, not with another \<^verbatim>\<open>BaseException\<close>; the time of the clock and
  the \<open>created_at\<close> of a snapshot can be subtracted (both naive or both aware); the
  \<open>retention_days\<close> of a snapshot is an \<^verbatim>\<open>int\<close> or \<^verbatim>\<open>None\<close>.
\<close>

datatype call =
    Uuid4
  | Get_current_datetime
  | Get_cid string
  | Validate_is_numeric string string
  | Get_managed_identity_token string
  | Validate_storage
  | Is_softdelete_enabled
  | Enable_file_share_softdelete int
  | Get_afs_list string
  | Validate_afs_exists string
  | Is_snapshot_already_created_today string
  | Validate_afs_snapshots_storage_limit string int
  | Create_snapshot string string bool
  | Get_snapshots string
  | Delete_snapshot string snapshot

datatype outcome =
    Raised exn
  | Returned
  | Returned_bool bool
  | Returned_str string
  | Returned_datetime datetime
  | Returned_afs_list afs_listing
  | Returned_snapshot_list snapshot_listing

datatype level = Info | Warning | Error

datatype event =
    Log level message
  | Separator
  | Traceback exn
  | Watch_enter string string
  | Watch_exit string string
  | Alert alert
  | Called call outcome

record env =
  uuid4 :: "nat \<Rightarrow> string"
  get_current_datetime :: "nat \<Rightarrow> datetime"
  get_cid :: "nat \<Rightarrow> string \<Rightarrow> exn + string"
  validate_is_numeric :: "nat \<Rightarrow> string \<Rightarrow> string \<Rightarrow> exn + unit"
  py_int :: "string \<Rightarrow> exn + int"
  im_get_managed_identity_token :: "nat \<Rightarrow> string \<Rightarrow> exn + string"
  sm_validate_storage :: "nat \<Rightarrow> exn + unit"
  sm_is_softdelete_enabled :: "nat \<Rightarrow> exn + bool"
  sm_enable_file_share_softdelete :: "nat \<Rightarrow> int \<Rightarrow> exn + unit"
  sm_get_afs_list :: "nat \<Rightarrow> string \<Rightarrow> exn + afs_listing"
  afs_validate_afs_exists :: "nat \<Rightarrow> string \<Rightarrow> exn + unit"
  afs_is_snapshot_already_created_today :: "nat \<Rightarrow> string \<Rightarrow> exn + bool"
  afs_validate_afs_snapshots_storage_limit :: "nat \<Rightarrow> string \<Rightarrow> int \<Rightarrow> exn + unit"
  afs_create_snapshot :: "nat \<Rightarrow> string \<Rightarrow> string \<Rightarrow> bool \<Rightarrow> exn + unit"
  afs_get_snapshots :: "nat \<Rightarrow> string \<Rightarrow> exn + snapshot_listing"
  afs_delete_snapshot :: "nat \<Rightarrow> string \<Rightarrow> snapshot \<Rightarrow> exn + unit"

section \<open>The state of a run\<close>

record proc =
  tick :: nat
  trace :: "event list"

record backup_state = proc +
  snapshots_created :: int

record deletion_state = proc +
  deleted_snapshots :: int

definition emit :: "event \<Rightarrow> 'a proc_scheme \<Rightarrow> 'a proc_scheme" where
  "emit ev st = st\<lparr>trace := trace st @ [ev]\<rparr>"

definition logger_info :: "message \<Rightarrow> 'a proc_scheme \<Rightarrow> 'a proc_scheme" where
  "logger_info msg = emit (Log Info msg)"

definition logger_warning :: "message \<Rightarrow> 'a proc_scheme \<Rightarrow> 'a proc_scheme" where
  "logger_warning msg = emit (Log Warning msg)"

definition logger_error :: "message \<Rightarrow> 'a proc_scheme \<Rightarrow> 'a proc_scheme" where
  "logger_error msg = emit (Log Error msg)"

definition add_seperator :: "'a proc_scheme \<Rightarrow> 'a proc_scheme" where
  "add_seperator = emit Separator"

text \<open>
  Modelled from the spec: \<^verbatim>\<open>Alerting.send\<close> of \<^verbatim>\<open>afs_snappy\<close> is missing. By section 4.4
  it makes one outbound call and is best-effort: no exception propagates to the caller.
\<close>

definition alerting_send ::
  "alert_type \<Rightarrow> datetime \<Rightarrow> message option \<Rightarrow> string option \<Rightarrow> 'a proc_scheme \<Rightarrow> 'a proc_scheme"
where
  "alerting_send ty start msg db =
     emit (Alert \<lparr>alert_kind = ty, start_time = start, message = msg, db_name = db\<rparr>)"

text \<open>A call of the environment: it takes the tick, and its outcome is recorded.\<close>

definition invoke ::
  "call \<Rightarrow> ('r \<Rightarrow> outcome) \<Rightarrow> (nat \<Rightarrow> exn + 'r) \<Rightarrow> 'a proc_scheme \<Rightarrow> (control + 'r) \<times> 'a proc_scheme"
where
  "invoke c shown f st =
     (case f (tick st) of
        Inl ex \<Rightarrow> (Inl (Raise ex), st\<lparr>tick := Suc (tick st), trace := trace st @ [Called c (Raised ex)]\<rparr>)
      | Inr r \<Rightarrow> (Inr r, st\<lparr>tick := Suc (tick st), trace := trace st @ [Called c (shown r)]\<rparr>))"

definition bind ::
  "('s \<Rightarrow> (control + 'a) \<times> 's) \<Rightarrow> ('a \<Rightarrow> 's \<Rightarrow> (control + 'b) \<times> 's) \<Rightarrow> 's \<Rightarrow> (control + 'b) \<times> 's"
where
  "bind m f st = (case m st of (Inl c, st') \<Rightarrow> (Inl c, st') | (Inr x, st') \<Rightarrow> f x st')"

text \<open>\<^verbatim>\<open>try: body except Exception as ex: handler\<close>. A \<^verbatim>\<open>SystemExit\<close> passes through.\<close>

definition try_except ::
  "('s \<Rightarrow> (control + 'a) \<times> 's) \<Rightarrow> (exn \<Rightarrow> 's \<Rightarrow> (control + 'a) \<times> 's) \<Rightarrow> 's \<Rightarrow> (control + 'a) \<times> 's"
where
  "try_except body handler st =
     (case body st of
        (Inl (Raise ex), st') \<Rightarrow> handler ex st'
      | (Inl (Exit n), st') \<Rightarrow> (Inl (Exit n), st')
      | (Inr x, st') \<Rightarrow> (Inr x, st'))"

text \<open>
  Modelled from the spec: \<^verbatim>\<open>Watcher.watch\<close> of \<^verbatim>\<open>afs_snappy\<close> is missing. By section 4.3
  the scope logs when it is entered and when it is left, on every exit path, and forwards
  a failure of the wrapped operation unchanged.
\<close>

definition watch ::
  "string \<Rightarrow> string \<Rightarrow> ('a proc_scheme \<Rightarrow> (control + 'r) \<times> 'a proc_scheme)
     \<Rightarrow> 'a proc_scheme \<Rightarrow> (control + 'r) \<times> 'a proc_scheme"
where
  "watch label correlation_id body st =
     (case body (emit (Watch_enter label correlation_id) st) of
        (r, st') \<Rightarrow> (r, emit (Watch_exit label correlation_id) st'))"

section \<open>deletionsnappy.py\<close>

definition RUNBOOK_TYPE_deletion :: string where
  "RUNBOOK_TYPE_deletion = ''afs-snapshots-deletion''"

definition VERSION :: string where
  "VERSION = ''1.0.0''"

record deletion_globals =
  subscription_id :: string
  resource_group :: string
  object_storage :: string
  exclude_afs :: string

text \<open>
  \<^verbatim>\<open>__has_snapshot_expired\<close>. Comparing an \<^verbatim>\<open>int\<close> with \<^verbatim>\<open>None\<close> raises \<^verbatim>\<open>TypeError\<close>.
\<close>

definition has_snapshot_expired :: "datetime \<Rightarrow> snapshot \<Rightarrow> exn + bool" where
  "has_snapshot_expired current_date_time snapshot =
     (let time_difference = datetime_sub current_date_time (created_at snapshot);
          created_since = days time_difference
      in case retention_days snapshot of
           None \<Rightarrow> Inl (TypeError ''> not supported between instances of int and NoneType'')
         | Some r \<Rightarrow> Inr (created_since > r))"

text \<open>
  \<^verbatim>\<open>snapshot.retention_days and snapshot.retention_days >= 0\<close>: the left operand decides
  alone when it is falsy, which \<^verbatim>\<open>None\<close> and \<^verbatim>\<open>0\<close> both are.
\<close>

definition retention_days_and_ge_0 :: "snapshot \<Rightarrow> bool" where
  "retention_days_and_ge_0 snapshot =
     (case retention_days snapshot of
        None \<Rightarrow> False
      | Some r \<Rightarrow> if r = 0 then False else r \<ge> 0)"

text \<open>\<^verbatim>\<open>__delete_snapshot\<close>; \<open>afs_name\<close> is the volume of the \<^verbatim>\<open>afs_manager\<close> passed in.\<close>

definition delete_snapshot ::
  "env \<Rightarrow> snapshot \<Rightarrow> string \<Rightarrow> string \<Rightarrow> deletion_state \<Rightarrow> (control + bool) \<times> deletion_state"
where
  "delete_snapshot env snapshot afs_name correlation_id st0 =
     (let current_date_time = get_current_datetime env (tick st0);
          st = st0\<lparr>tick := Suc (tick st0),
                   trace := trace st0 @ [Called Get_current_datetime (Returned_datetime current_date_time)]\<rparr>
      in try_except
           (watch (''Delete snapshot: '' @ name snapshot) correlation_id
              (bind (invoke (Delete_snapshot afs_name snapshot) (\<lambda>_. Returned)
                       (\<lambda>t. afs_delete_snapshot env t afs_name snapshot))
                 (\<lambda>_ s. (Inr True, s\<lparr>deleted_snapshots := deleted_snapshots s + 1\<rparr>))))
           (\<lambda>ex s.
              let error_message = Unable_to_delete (name snapshot) ex correlation_id
              in (Inr False,
                  logger_warning error_message
                    (alerting_send FAIL current_date_time (Some error_message) None s)))
           st)"

text \<open>The \<^verbatim>\<open>for snapshot in snapshot_list.snapshots\<close> loop of \<^verbatim>\<open>__delete_snapshots_in_afs\<close>.\<close>

fun snapshots_loop ::
  "env \<Rightarrow> string \<Rightarrow> string \<Rightarrow> datetime \<Rightarrow> snapshot list \<Rightarrow> int \<Rightarrow> deletion_state
     \<Rightarrow> (control + int) \<times> deletion_state"
where
  "snapshots_loop env afs_name correlation_id current_date_time [] deleted_snapshots_in_afs st =
     (Inr deleted_snapshots_in_afs, st)"
| "snapshots_loop env afs_name correlation_id current_date_time (snapshot # rest) deleted_snapshots_in_afs st =
     (if retention_days_and_ge_0 snapshot then
        (case has_snapshot_expired current_date_time snapshot of
           Inl ex \<Rightarrow> (Inl (Raise ex), st)
         | Inr is_expired \<Rightarrow>
             if is_expired then
               (case delete_snapshot env snapshot afs_name correlation_id
                       (logger_info (Deleting_snapshot (name snapshot)) st) of
                  (Inl c, st') \<Rightarrow> (Inl c, st')
                | (Inr snapshot_deleted, st') \<Rightarrow>
                    snapshots_loop env afs_name correlation_id current_date_time rest
                      (if snapshot_deleted then deleted_snapshots_in_afs + 1
                       else deleted_snapshots_in_afs) st')
             else snapshots_loop env afs_name correlation_id current_date_time rest
                    deleted_snapshots_in_afs st)
      else snapshots_loop env afs_name correlation_id current_date_time rest
             deleted_snapshots_in_afs st)"

definition delete_snapshots_in_afs ::
  "env \<Rightarrow> string \<Rightarrow> string \<Rightarrow> datetime \<Rightarrow> deletion_state \<Rightarrow> (control + unit) \<times> deletion_state"
where
  "delete_snapshots_in_afs env afs_name correlation_id current_date_time =
     try_except
       (\<lambda>st.
          bind (invoke (Get_snapshots afs_name) Returned_snapshot_list
                  (\<lambda>t. afs_get_snapshots env t afs_name))
            (\<lambda>snapshot_list s.
               if total snapshot_list < 1 then
                 (Inr (), logger_info (No_snapshots_in_AFS afs_name correlation_id) s)
               else
                 bind (snapshots_loop env afs_name correlation_id current_date_time
                         (snapshots snapshot_list) 0)
                   (\<lambda>deleted_snapshots_in_afs s'.
                      (Inr (),
                       logger_info
                         (Snapshots_deleted_in_AFS deleted_snapshots_in_afs afs_name correlation_id) s'))
                   (logger_info (Snapshots_found (total snapshot_list)) s))
            (logger_info Fetching_snapshots_list st))
       (\<lambda>ex st.
          let error_message = Skipping_AFS afs_name ex correlation_id
          in (Inr (),
              logger_warning error_message
                (alerting_send FAIL current_date_time (Some error_message) None st)))"

text \<open>The body of \<^verbatim>\<open>for afs_name in afs_list_in_storage.afs_list\<close> in \<^verbatim>\<open>main\<close>.\<close>

definition deletion_volume ::
  "env \<Rightarrow> string \<Rightarrow> datetime \<Rightarrow> string \<Rightarrow> deletion_state \<Rightarrow> (control + unit) \<times> deletion_state"
where
  "deletion_volume env correlation_id current_date_time afs_name st =
     bind (invoke (Validate_afs_exists afs_name) (\<lambda>_. Returned)
             (\<lambda>t. afs_validate_afs_exists env t afs_name))
       (\<lambda>_. bind (delete_snapshots_in_afs env afs_name correlation_id current_date_time)
          (\<lambda>_ s. (Inr (), alerting_send SUCCESS current_date_time None (Some afs_name) s)))
       (logger_info Validating_AFS_exists (add_seperator st))"

fun deletion_volumes ::
  "env \<Rightarrow> string \<Rightarrow> datetime \<Rightarrow> string list \<Rightarrow> deletion_state \<Rightarrow> (control + unit) \<times> deletion_state"
where
  "deletion_volumes env correlation_id current_date_time [] st = (Inr (), st)"
| "deletion_volumes env correlation_id current_date_time (afs_name # rest) st =
     (case deletion_volume env correlation_id current_date_time afs_name st of
        (Inl c, st') \<Rightarrow> (Inl c, st')
      | (Inr _, st') \<Rightarrow> deletion_volumes env correlation_id current_date_time rest st')"

text \<open>The \<^verbatim>\<open>try\<close> block of \<^verbatim>\<open>main\<close>.\<close>

definition deletion_try ::
  "env \<Rightarrow> deletion_globals \<Rightarrow> string \<Rightarrow> datetime \<Rightarrow> deletion_state \<Rightarrow> (control + unit) \<times> deletion_state"
where
  "deletion_try env g correlation_id current_date_time st =
     bind (invoke (Get_managed_identity_token correlation_id) Returned_str
             (\<lambda>t. im_get_managed_identity_token env t correlation_id))
       (\<lambda>identity_token s0.
          bind (invoke Validate_storage (\<lambda>_. Returned) (sm_validate_storage env))
            (\<lambda>_ s.
               bind (invoke (Get_afs_list (exclude_afs g)) Returned_afs_list
                       (\<lambda>t. sm_get_afs_list env t (exclude_afs g)))
                 (\<lambda>afs_list_in_storage s'.
                    if total afs_list_in_storage < 1 then
                      (Inl (Exit 0), logger_info (No_AFS_volumes_found (object_storage g)) s')
                    else
                      bind (deletion_volumes env correlation_id current_date_time
                              (afs_list afs_list_in_storage))
                        (\<lambda>_ s''.
                           (Inr (),
                            logger_info
                              (Deletion_job_completed (deleted_snapshots s'') correlation_id)
                              (add_seperator s'')))
                        (logger_info Iterating_the_list
                           (logger_info
                              (Total_AFS_found (object_storage g) (total afs_list_in_storage)) s')))
                 (logger_info (Fetching_AFS_volumes (object_storage g)) s))
            (logger_info (Validating_storage_dependencies (object_storage g)) s0))
       (logger_info Fetching_managed_identity_token st)"

text \<open>
  The end of the process: the exit status is 0 when \<^verbatim>\<open>main\<close> returns, the argument of
  \<^verbatim>\<open>sys.exit\<close> when that is called, and 1 when an exception is not caught, Python then
  printing the traceback.
\<close>

definition exit_status :: "(control + unit) \<times> 'a proc_scheme \<Rightarrow> int \<times> 'a proc_scheme" where
  "exit_status outcome =
     (case outcome of
        (Inl (Raise ex), st) \<Rightarrow> (1, emit (Traceback ex) st)
      | (Inl (Exit n), st) \<Rightarrow> (n, st)
      | (Inr _, st) \<Rightarrow> (0, st))"

text \<open>
  The statements of \<^verbatim>\<open>main\<close> before \<^verbatim>\<open>get_cid\<close>: the correlation id, the one reading of
  the clock that \<^verbatim>\<open>main\<close> makes, and the first log lines.
\<close>

definition deletion_prelude :: "env \<Rightarrow> deletion_globals \<Rightarrow> (string \<times> datetime) \<times> deletion_state" where
  "deletion_prelude env g =
     (let st0 = \<lparr>tick = 0, trace = [], deleted_snapshots = 0\<rparr>;
          correlation_id = uuid4 env (tick st0);
          st1 = st0\<lparr>tick := Suc (tick st0),
                    trace := trace st0 @ [Called Uuid4 (Returned_str correlation_id)]\<rparr>;
          current_date_time = get_current_datetime env (tick st1);
          st2 = st1\<lparr>tick := Suc (tick st1),
                    trace := trace st1 @ [Called Get_current_datetime (Returned_datetime current_date_time)]\<rparr>
      in ((correlation_id, current_date_time),
          logger_info (Script_version VERSION)
            (logger_info (Type_line RUNBOOK_TYPE_deletion)
               (logger_info (Starting_deletion_job correlation_id) st2))))"

text \<open>The \<^verbatim>\<open>except\<close> block of \<^verbatim>\<open>main\<close>.\<close>

definition deletion_except ::
  "string \<Rightarrow> datetime \<Rightarrow> exn \<Rightarrow> deletion_state \<Rightarrow> (control + unit) \<times> deletion_state"
where
  "deletion_except correlation_id current_date_time ex st =
     (let error_message = Error_deletion_runbook ex correlation_id
      in (Inl (Exit 1),
          logger_error error_message
            (alerting_send FAIL current_date_time (Some error_message) None
               (emit (Traceback ex) st))))"

text \<open>\<^verbatim>\<open>main\<close>; \<^verbatim>\<open>get_cid\<close> is called outside the \<^verbatim>\<open>try\<close>.\<close>

definition deletion_main :: "env \<Rightarrow> deletion_globals \<Rightarrow> int \<times> deletion_state" where
  "deletion_main env g =
     (case deletion_prelude env g of
        ((correlation_id, current_date_time), st3) \<Rightarrow>
          exit_status
            (bind (invoke (Get_cid (resource_group g)) Returned_str
                     (\<lambda>t. get_cid env t (resource_group g)))
               (\<lambda>cid st4.
                  try_except (deletion_try env g correlation_id current_date_time)
                    (deletion_except correlation_id current_date_time)
                    (logger_info (Customer_ID cid) st4))
               st3))"

section \<open>backupsnappy.py\<close>

definition RUNBOOK_TYPE_backup :: string where
  "RUNBOOK_TYPE_backup = ''afs-backup''"

definition AFS_SOFTDELETE_RETENTION_DAYS :: int where
  "AFS_SOFTDELETE_RETENTION_DAYS = 7"

definition AFS_TOTAL_SNAPSHOTS_LIMIT :: int where
  "AFS_TOTAL_SNAPSHOTS_LIMIT = 200"

text \<open>
  The module-level variables as the top of the script leaves them: the automation
  variables, overridden by the command line. The suffix \<open>_g\<close> keeps \<^verbatim>\<open>retention_days\<close> (a
  \<^verbatim>\<open>str\<close> here) and \<^verbatim>\<open>correlation_id\<close> apart from the names already in use.
\<close>

record backup_globals = deletion_globals +
  retention_days_g :: string
  correlation_id_g :: string
  triggered_from_vm :: string
  sid :: string
  is_adhoc_backup :: bool

definition allowed_adhoc_backup_retention_days_list :: "int list" where
  "allowed_adhoc_backup_retention_days_list =
     [3, 7, 15, 30, 45, 60, 67, 90, 180, 365, 730, 1095, 1460, 1825]"

text \<open>\<^verbatim>\<open>str\<close> of an \<^verbatim>\<open>int\<close> and \<^verbatim>\<open>sep.join\<close>, for the text of the exception below.\<close>

fun str_nat :: "nat \<Rightarrow> string" where
  "str_nat n =
     (if n < 10 then [char_of (48 + n)]
      else str_nat (n div 10) @ [char_of (48 + n mod 10)])"

definition str_int :: "int \<Rightarrow> string" where
  "str_int i = (if i < 0 then CHR ''-'' # str_nat (nat (- i)) else str_nat (nat i))"

fun join :: "string \<Rightarrow> string list \<Rightarrow> string" where
  "join sep [] = []"
| "join sep [x] = x"
| "join sep (x # y # ys) = x @ sep @ join sep (y # ys)"

text \<open>
  \<^verbatim>\<open>__validate_allowed_adhoc_backup_retention_days\<close>. \<^verbatim>\<open>int(rdays)\<close> is Python's built-in
  conversion, \<open>py_int\<close> of the environment; it raises \<^verbatim>\<open>ValueError\<close> on a text that is no
  integer literal.
\<close>

definition validate_allowed_adhoc_backup_retention_days :: "env \<Rightarrow> string \<Rightarrow> exn + unit" where
  "validate_allowed_adhoc_backup_retention_days env rdays =
     (case py_int env rdays of
        Inl ex \<Rightarrow> Inl ex
      | Inr retenion_days_int \<Rightarrow>
          if retenion_days_int \<notin> set allowed_adhoc_backup_retention_days_list then
            Inl (Exception
                  (''The retention days for adhoc backup must be from: [''
                     @ join '', '' (map str_int allowed_adhoc_backup_retention_days_list) @ '']''))
          else Inr ())"

text \<open>\<^verbatim>\<open>__enable_softdelete_in_file_share\<close>.\<close>

definition enable_softdelete_in_file_share ::
  "env \<Rightarrow> string \<Rightarrow> string \<Rightarrow> datetime \<Rightarrow> backup_state \<Rightarrow> (control + unit) \<times> backup_state"
where
  "enable_softdelete_in_file_share env storage correlation_id current_date_time =
     try_except
       (\<lambda>st.
          bind (invoke Is_softdelete_enabled Returned_bool (sm_is_softdelete_enabled env))
            (\<lambda>enabled s.
               if enabled then (Inr (), logger_info (Soft_delete_already_enabled storage) s)
               else
                 watch (''Enable soft delete for file share service in '' @ [CHR 0x27] @ storage @ [CHR 0x27])
                   correlation_id
                   (invoke (Enable_file_share_softdelete AFS_SOFTDELETE_RETENTION_DAYS) (\<lambda>_. Returned)
                      (\<lambda>t. sm_enable_file_share_softdelete env t AFS_SOFTDELETE_RETENTION_DAYS))
                   (logger_info (Enabling_soft_delete storage AFS_SOFTDELETE_RETENTION_DAYS) s))
            (logger_info (Checking_soft_delete storage) st))
       (\<lambda>ex st.
          let error_message = Skipping_softdelete_enablement storage ex correlation_id
          in (Inr (),
              logger_warning error_message
                (alerting_send FAIL current_date_time (Some error_message) None st)))"

text \<open>\<^verbatim>\<open>__create_afs_snapshot\<close>; it reads the global \<^verbatim>\<open>retention_days\<close>.\<close>

definition create_afs_snapshot ::
  "env \<Rightarrow> backup_globals \<Rightarrow> string \<Rightarrow> string \<Rightarrow> datetime \<Rightarrow> bool \<Rightarrow> backup_state
     \<Rightarrow> (control + unit) \<times> backup_state"
where
  "create_afs_snapshot env g afs_name correlation_id current_date_time is_adhoc_bkp =
     try_except
       (\<lambda>st.
          bind (invoke (Validate_afs_snapshots_storage_limit afs_name AFS_TOTAL_SNAPSHOTS_LIMIT)
                  (\<lambda>_. Returned)
                  (\<lambda>t. afs_validate_afs_snapshots_storage_limit env t afs_name AFS_TOTAL_SNAPSHOTS_LIMIT))
            (\<lambda>_ s.
               watch ''Create snapshot'' correlation_id
                 (bind (invoke (Create_snapshot afs_name (retention_days_g g) is_adhoc_bkp)
                          (\<lambda>_. Returned)
                          (\<lambda>t. afs_create_snapshot env t afs_name (retention_days_g g) is_adhoc_bkp))
                    (\<lambda>_ s'. (Inr (), s'\<lparr>snapshots_created := snapshots_created s' + 1\<rparr>)))
                 (logger_info (Creating_snapshot_backup is_adhoc_bkp afs_name (retention_days_g g)) s))
            (logger_info (Validating_snapshot_storage_limit AFS_TOTAL_SNAPSHOTS_LIMIT afs_name) st))
       (\<lambda>ex st.
          let error_message = Skipping_create_snapshot afs_name ex correlation_id
          in (Inr (),
              logger_warning error_message
                (alerting_send FAIL current_date_time (Some error_message) None st)))"

text \<open>
  The end of the loop body of \<^verbatim>\<open>main\<close>: the call of \<^verbatim>\<open>__create_afs_snapshot\<close> and the
  \<^verbatim>\<open>alerting.send\<close> that follows it.
\<close>

definition create_and_alert ::
  "env \<Rightarrow> backup_globals \<Rightarrow> string \<Rightarrow> datetime \<Rightarrow> string \<Rightarrow> backup_state
     \<Rightarrow> (control + unit) \<times> backup_state"
where
  "create_and_alert env g correlation_id current_date_time afs_name =
     bind (create_afs_snapshot env g afs_name correlation_id current_date_time (is_adhoc_backup g))
       (\<lambda>_ s. (Inr (), alerting_send SUCCESS current_date_time None (Some afs_name) s))"

text \<open>
  The body of \<^verbatim>\<open>for afs_name in afs_list_in_storage.afs_list\<close> in \<^verbatim>\<open>main\<close>; \<^verbatim>\<open>continue\<close>
  ends the body normally.
\<close>

definition backup_volume ::
  "env \<Rightarrow> backup_globals \<Rightarrow> string \<Rightarrow> datetime \<Rightarrow> string \<Rightarrow> backup_state
     \<Rightarrow> (control + unit) \<times> backup_state"
where
  "backup_volume env g correlation_id current_date_time afs_name st =
     bind (invoke (Validate_afs_exists afs_name) (\<lambda>_. Returned)
             (\<lambda>t. afs_validate_afs_exists env t afs_name))
       (\<lambda>_ s.
          if is_adhoc_backup g then
            create_and_alert env g correlation_id current_date_time afs_name
              (logger_info (Skipping_already_created_check afs_name) s)
          else
            bind (invoke (Is_snapshot_already_created_today afs_name) Returned_bool
                    (\<lambda>t. afs_is_snapshot_already_created_today env t afs_name))
              (\<lambda>already s'.
                 if already then (Inr (), logger_info (Already_created_today afs_name) s')
                 else create_and_alert env g correlation_id current_date_time afs_name s')
              s)
       (logger_info (Validating_AFS afs_name) (add_seperator st))"

fun backup_volumes ::
  "env \<Rightarrow> backup_globals \<Rightarrow> string \<Rightarrow> datetime \<Rightarrow> string list \<Rightarrow> backup_state
     \<Rightarrow> (control + unit) \<times> backup_state"
where
  "backup_volumes env g correlation_id current_date_time [] st = (Inr (), st)"
| "backup_volumes env g correlation_id current_date_time (afs_name # rest) st =
     (case backup_volume env g correlation_id current_date_time afs_name st of
        (Inl c, st') \<Rightarrow> (Inl c, st')
      | (Inr _, st') \<Rightarrow> backup_volumes env g correlation_id current_date_time rest st')"

text \<open>The part of the \<^verbatim>\<open>try\<close> block of \<^verbatim>\<open>main\<close> that follows \<^verbatim>\<open>validate_storage\<close>.\<close>

definition backup_after_validation ::
  "env \<Rightarrow> backup_globals \<Rightarrow> string \<Rightarrow> datetime \<Rightarrow> backup_state \<Rightarrow> (control + unit) \<times> backup_state"
where
  "backup_after_validation env g correlation_id current_date_time st =
     bind (enable_softdelete_in_file_share env (object_storage g) correlation_id current_date_time)
       (\<lambda>_ s.
          bind (invoke (Get_afs_list (exclude_afs g)) Returned_afs_list
                  (\<lambda>t. sm_get_afs_list env t (exclude_afs g)))
            (\<lambda>afs_list_in_storage s'.
               if total afs_list_in_storage < 1 then
                 (Inl (Exit 0), logger_info (No_AFS_volumes_found (object_storage g)) s')
               else
                 bind (backup_volumes env g correlation_id current_date_time
                         (afs_list afs_list_in_storage))
                   (\<lambda>_ s''.
                      (Inr (),
                       logger_info (Creation_job_completed (snapshots_created s'') correlation_id)
                         (add_seperator s'')))
                   (logger_info Iterating_over_the_list
                      (logger_info
                         (Total_AFS_found (object_storage g) (total afs_list_in_storage)) s')))
            (logger_info (Fetching_AFS_volumes (object_storage g)) s))
       st"

text \<open>The \<^verbatim>\<open>try\<close> block of \<^verbatim>\<open>main\<close>.\<close>

definition backup_try ::
  "env \<Rightarrow> backup_globals \<Rightarrow> string \<Rightarrow> datetime \<Rightarrow> backup_state \<Rightarrow> (control + unit) \<times> backup_state"
where
  "backup_try env g correlation_id current_date_time st =
     bind (invoke (Validate_is_numeric (retention_days_g g) ''RetentionDays'') (\<lambda>_. Returned)
             (\<lambda>t. validate_is_numeric env t (retention_days_g g) ''RetentionDays''))
       (\<lambda>_ s.
          case (if is_adhoc_backup g
                then validate_allowed_adhoc_backup_retention_days env (retention_days_g g)
                else Inr ()) of
            Inl ex \<Rightarrow> (Inl (Raise ex), s)
          | Inr _ \<Rightarrow>
              bind (invoke (Get_managed_identity_token correlation_id) Returned_str
                      (\<lambda>t. im_get_managed_identity_token env t correlation_id))
                (\<lambda>identity_token s'.
                   bind (invoke Validate_storage (\<lambda>_. Returned) (sm_validate_storage env))
                     (\<lambda>_. backup_after_validation env g correlation_id current_date_time)
                     (logger_info (Validating_storage_dependencies (object_storage g)) s'))
                (logger_info Fetching_managed_identity_token s))
       st"

text \<open>
  The statements of \<^verbatim>\<open>main\<close> before \<^verbatim>\<open>get_cid\<close>; a correlation id given on the command
  line is kept.
\<close>

definition backup_prelude :: "env \<Rightarrow> backup_globals \<Rightarrow> (string \<times> datetime) \<times> backup_state" where
  "backup_prelude env g =
     (let st0 = \<lparr>tick = 0, trace = [], snapshots_created = 0\<rparr>;
          (correlation_id, st1) =
            (if correlation_id_g g = [] then
               (uuid4 env (tick st0),
                st0\<lparr>tick := Suc (tick st0),
                    trace := trace st0 @ [Called Uuid4 (Returned_str (uuid4 env (tick st0)))]\<rparr>)
             else (correlation_id_g g, st0));
          current_date_time = get_current_datetime env (tick st1);
          st2 = st1\<lparr>tick := Suc (tick st1),
                    trace := trace st1 @ [Called Get_current_datetime (Returned_datetime current_date_time)]\<rparr>
      in ((correlation_id, current_date_time),
          logger_info (Script_version VERSION)
            (logger_info (Type_line RUNBOOK_TYPE_backup)
               (logger_info (Starting_creation_job (is_adhoc_backup g) correlation_id) st2))))"

text \<open>The \<^verbatim>\<open>except\<close> block of \<^verbatim>\<open>main\<close>.\<close>

definition backup_except ::
  "string \<Rightarrow> datetime \<Rightarrow> exn \<Rightarrow> backup_state \<Rightarrow> (control + unit) \<times> backup_state"
where
  "backup_except correlation_id current_date_time ex st =
     (let error_message = Error_backup_runbook ex correlation_id
      in (Inl (Exit 1),
          logger_error error_message
            (alerting_send FAIL current_date_time (Some error_message) None
               (emit (Traceback ex) st))))"

text \<open>\<^verbatim>\<open>main\<close>; \<^verbatim>\<open>get_cid\<close> is called outside the \<^verbatim>\<open>try\<close>.\<close>

definition backup_main :: "env \<Rightarrow> backup_globals \<Rightarrow> int \<times> backup_state" where
  "backup_main env g =
     (case backup_prelude env g of
        ((correlation_id, current_date_time), st3) \<Rightarrow>
          exit_status
            (bind (invoke (Get_cid (resource_group g)) Returned_str
                     (\<lambda>t. get_cid env t (resource_group g)))
               (\<lambda>cid st4.
                  try_except (backup_try env g correlation_id current_date_time)
                    (backup_except correlation_id current_date_time)
                    (logger_info (Customer_ID cid) st4))
               st3))"

section \<open>Observations on a trace\<close>

text \<open>
  The predicates below classify the events of a trace: the alerts by their type, the
  mutating calls that returned, the final summary line, the run-level error output, and the
  events that the handling of one volume may produce.
\<close>

definition fail_alert :: "event \<Rightarrow> bool" where
  "fail_alert ev = (case ev of Alert a \<Rightarrow> alert_kind a = FAIL | _ \<Rightarrow> False)"

definition success_alert :: "event \<Rightarrow> bool" where
  "success_alert ev = (case ev of Alert a \<Rightarrow> alert_kind a = SUCCESS | _ \<Rightarrow> False)"


definition loop_call :: "call \<Rightarrow> bool" where
  "loop_call c =
     (case c of
        Get_current_datetime \<Rightarrow> True
      | Validate_afs_exists _ \<Rightarrow> True
      | Is_snapshot_already_created_today _ \<Rightarrow> True
      | Validate_afs_snapshots_storage_limit _ _ \<Rightarrow> True
      | Create_snapshot _ _ _ \<Rightarrow> True
      | Get_snapshots _ \<Rightarrow> True
      | Delete_snapshot _ _ \<Rightarrow> True
      | _ \<Rightarrow> False)"

definition loop_message :: "message \<Rightarrow> bool" where
  "loop_message m =
     (case m of
        Validating_AFS_exists \<Rightarrow> True
      | Validating_AFS _ \<Rightarrow> True
      | Fetching_snapshots_list \<Rightarrow> True
      | No_snapshots_in_AFS _ _ \<Rightarrow> True
      | Snapshots_found _ \<Rightarrow> True
      | Deleting_snapshot _ \<Rightarrow> True
      | Snapshots_deleted_in_AFS _ _ _ \<Rightarrow> True
      | Skipping_AFS _ _ _ \<Rightarrow> True
      | Unable_to_delete _ _ _ \<Rightarrow> True
      | Validating_snapshot_storage_limit _ _ \<Rightarrow> True
      | Creating_snapshot_backup _ _ _ \<Rightarrow> True
      | Skipping_create_snapshot _ _ _ \<Rightarrow> True
      | Skipping_already_created_check _ \<Rightarrow> True
      | Already_created_today _ \<Rightarrow> True
      | _ \<Rightarrow> False)"

definition loop_event :: "event \<Rightarrow> bool" where
  "loop_event ev =
     (case ev of
        Log l m \<Rightarrow> l \<noteq> Error \<and> loop_message m
      | Separator \<Rightarrow> True
      | Traceback _ \<Rightarrow> False
      | Watch_enter _ _ \<Rightarrow> True
      | Watch_exit _ _ \<Rightarrow> True
      | Alert _ \<Rightarrow> True
      | Called c _ \<Rightarrow> loop_call c)"

definition volume_call :: "event \<Rightarrow> bool" where
  "volume_call ev = (case ev of Called c _ \<Rightarrow> c \<noteq> Get_current_datetime \<and> loop_call c | _ \<Rightarrow> False)"

definition run_error :: "event \<Rightarrow> bool" where
  "run_error ev = (case ev of Traceback _ \<Rightarrow> True | Log l _ \<Rightarrow> l = Error | _ \<Rightarrow> False)"

definition prelude_event :: "event \<Rightarrow> bool" where
  "prelude_event ev =
     (case ev of
        Log l m \<Rightarrow>
          l = Info \<and>
          (case m of
             Starting_deletion_job _ \<Rightarrow> True
           | Starting_creation_job _ _ \<Rightarrow> True
           | Type_line _ \<Rightarrow> True
           | Script_version _ \<Rightarrow> True
           | Customer_ID _ \<Rightarrow> True
           | _ \<Rightarrow> False)
      | Called c r \<Rightarrow>
          (case c of Uuid4 \<Rightarrow> True | Get_current_datetime \<Rightarrow> True | Get_cid _ \<Rightarrow> True | _ \<Rightarrow> False)
      | _ \<Rightarrow> False)"

definition create_succeeded :: "event \<Rightarrow> bool" where
  "create_succeeded ev =
     (case ev of
        Called c r \<Rightarrow> (case c of Create_snapshot _ _ _ \<Rightarrow> r = Returned | _ \<Rightarrow> False)
      | _ \<Rightarrow> False)"

definition delete_succeeded :: "event \<Rightarrow> bool" where
  "delete_succeeded ev =
     (case ev of
        Called c r \<Rightarrow> (case c of Delete_snapshot _ _ \<Rightarrow> r = Returned | _ \<Rightarrow> False)
      | _ \<Rightarrow> False)"

definition is_summary :: "event \<Rightarrow> bool" where
  "is_summary ev =
     (case ev of
        Log l m \<Rightarrow>
          (case m of Creation_job_completed _ _ \<Rightarrow> True | Deletion_job_completed _ _ \<Rightarrow> True | _ \<Rightarrow> False)
      | _ \<Rightarrow> False)"


text \<open>
  The decision of the deletion loop for one snapshot at the time \<open>now\<close>: the guard on
  \<open>retention_days\<close> holds and the expiration check returns true.
\<close>

definition should_delete :: "datetime \<Rightarrow> snapshot \<Rightarrow> bool" where
  "should_delete now s = (retention_days_and_ge_0 s \<and> has_snapshot_expired now s = Inr True)"

text \<open>The events that the handling of one snapshot may produce.\<close>

definition snapshot_event :: "event \<Rightarrow> bool" where
  "snapshot_event ev =
     (case ev of
        Log l m \<Rightarrow>
          l \<noteq> Error \<and>
          (case m of Deleting_snapshot _ \<Rightarrow> True | Unable_to_delete _ _ _ \<Rightarrow> True | _ \<Rightarrow> False)
      | Watch_enter _ _ \<Rightarrow> True
      | Watch_exit _ _ \<Rightarrow> True
      | Alert a \<Rightarrow> alert_kind a = FAIL
      | Called c _ \<Rightarrow>
          (case c of Get_current_datetime \<Rightarrow> True | Delete_snapshot _ _ \<Rightarrow> True | _ \<Rightarrow> False)
      | _ \<Rightarrow> False)"

text \<open>The events that neither list the snapshots of a volume nor delete one.\<close>

definition plain_event :: "event \<Rightarrow> bool" where
  "plain_event ev =
     (case ev of
        Called c r \<Rightarrow> (case c of Delete_snapshot _ _ \<Rightarrow> False | Get_snapshots _ \<Rightarrow> False | _ \<Rightarrow> True)
      | _ \<Rightarrow> True)"

text \<open>
  A trace agrees with the time \<open>now\<close>: a deletion is requested only for a snapshot that
  is expired at \<open>now\<close>, and every such snapshot of a listed volume has its request.
\<close>

definition deletions_ok :: "datetime \<Rightarrow> event list \<Rightarrow> bool" where
  "deletions_ok now new =
     ((\<forall>v s res. Called (Delete_snapshot v s) res \<in> set new \<longrightarrow> should_delete now s)
      \<and> (\<forall>v l s. Called (Get_snapshots v) (Returned_snapshot_list l) \<in> set new
             \<and> 1 \<le> total l \<and> s \<in> set (snapshots l) \<and> should_delete now s \<longrightarrow>
           (\<exists>res. Called (Delete_snapshot v s) res \<in> set new)))"



section \<open>A sample environment\<close>

text \<open>
  A backend for concrete runs: \<open>volumes\<close> are listed; a volume in \<open>missing\<close> fails the
  existence check, one in \<open>full\<close> fails the snapshot limit, one in \<open>already\<close> has a
  snapshot of today; every volume holds the snapshots \<open>snaps\<close>. The clock advances one
  day per call.
\<close>

definition example_env ::
  "string list \<Rightarrow> string list \<Rightarrow> string list \<Rightarrow> string list \<Rightarrow> snapshot list \<Rightarrow> env"
where
  "example_env volumes missing full already snaps =
     \<lparr>uuid4 = (\<lambda>t. ''run-1''),
      get_current_datetime = (\<lambda>t. 86400000000 * int t),
      get_cid = (\<lambda>t rg. Inr ''cid''),
      validate_is_numeric = (\<lambda>t v what. Inr ()),
      py_int = (\<lambda>s. if s \<noteq> [] \<and> list_all (\<lambda>c. 48 \<le> (of_char c :: nat) \<and> (of_char c :: nat) \<le> 57) s
                     then Inr (int (foldl (\<lambda>a c. 10 * a + (of_char c - 48)) (0::nat) s))
                     else Inl (ValueError s)),
      im_get_managed_identity_token = (\<lambda>t cid. Inr ''token''),
      sm_validate_storage = (\<lambda>t. Inr ()),
      sm_is_softdelete_enabled = (\<lambda>t. Inr True),
      sm_enable_file_share_softdelete = (\<lambda>t d. Inr ()),
      sm_get_afs_list = (\<lambda>t excl. Inr \<lparr>total = int (length volumes), afs_list = volumes\<rparr>),
      afs_validate_afs_exists =
        (\<lambda>t v. if v \<in> set missing then Inl (Exception ''not found'') else Inr ()),
      afs_is_snapshot_already_created_today = (\<lambda>t v. Inr (v \<in> set already)),
      afs_validate_afs_snapshots_storage_limit =
        (\<lambda>t v limit. if v \<in> set full then Inl (Exception ''limit exceeded'') else Inr ()),
      afs_create_snapshot = (\<lambda>t v rd adhoc. Inr ()),
      afs_get_snapshots = (\<lambda>t v. Inr \<lparr>total = int (length snaps), snapshots = snaps\<rparr>),
      afs_delete_snapshot = (\<lambda>t v s. Inr ())\<rparr>"

definition example_globals :: "bool \<Rightarrow> string \<Rightarrow> backup_globals" where
  "example_globals adhoc rd =
     \<lparr>subscription_id = ''sub'', resource_group = ''rg'', object_storage = ''store'',
      exclude_afs = '''', retention_days_g = rd, correlation_id_g = '''',
      triggered_from_vm = '''', sid = ''SID'', is_adhoc_backup = adhoc\<rparr>"


definition example_deletion_globals :: deletion_globals where
  "example_deletion_globals =
     \<lparr>subscription_id = ''sub'', resource_group = ''rg'', object_storage = ''store'',
      exclude_afs = ''''\<rparr>"

section \<open>Unfolding rules\<close>

lemmas prims = emit_def logger_info_def logger_warning_def logger_error_def add_seperator_def
  alerting_send_def invoke_def bind_def try_except_def watch_def Let_def

lemmas backup_defs = backup_main_def backup_prelude_def backup_except_def exit_status_def
  backup_try_def backup_after_validation_def
  backup_volume_def create_and_alert_def create_afs_snapshot_def enable_softdelete_in_file_share_def

lemmas preds = loop_call_def loop_message_def loop_event_def volume_call_def run_error_def
  create_succeeded_def delete_succeeded_def is_summary_def fail_alert_def success_alert_def

section \<open>Creation flow: what each step adds to the trace\<close>

lemma create_afs_snapshot_effect:
  "create_afs_snapshot env g a cid now adhoc st = (r, st') \<Longrightarrow>
     r = Inr () \<and> (\<exists>new. trace st' = trace st @ new \<and> list_all loop_event new
        \<and> (\<forall>n ex. Called (Validate_afs_exists n) (Raised ex) \<notin> set new))"
  by (auto simp: create_afs_snapshot_def prims preds AFS_TOTAL_SNAPSHOTS_LIMIT_def
      split: sum.splits prod.splits control.splits if_splits)

lemma backup_volume_effect:
  "backup_volume env g cid now a st = (r, st') \<Longrightarrow>
     \<exists>new. trace st' = trace st @ new \<and> list_all loop_event new
        \<and> (\<forall>n ex. Called (Validate_afs_exists n) (Raised ex) \<in> set new \<longrightarrow>
              r = Inl (Raise ex) \<and> last new = Called (Validate_afs_exists n) (Raised ex))"
  apply (auto simp: backup_volume_def create_and_alert_def prims preds
      split: sum.splits prod.splits control.splits if_splits
      dest!: create_afs_snapshot_effect)
  done

lemma backup_volumes_effect:
  "backup_volumes env g cid now vs st = (r, st') \<Longrightarrow>
     \<exists>new. trace st' = trace st @ new \<and> list_all loop_event new
        \<and> (\<forall>n ex. Called (Validate_afs_exists n) (Raised ex) \<in> set new \<longrightarrow>
              r = Inl (Raise ex) \<and> last new = Called (Validate_afs_exists n) (Raised ex))"
proof (induction vs arbitrary: st r st')
  case Nil
  then show ?case by simp
next
  case (Cons v vs)
  obtain r1 st1 where b: "backup_volume env g cid now v st = (r1, st1)"
    by (cases "backup_volume env g cid now v st")
  from backup_volume_effect [OF b] obtain new1 where
    n1: "trace st1 = trace st @ new1" "list_all loop_event new1"
      "\<forall>n ex. Called (Validate_afs_exists n) (Raised ex) \<in> set new1 \<longrightarrow>
              r1 = Inl (Raise ex) \<and> last new1 = Called (Validate_afs_exists n) (Raised ex)"
    by blast
  show ?case
  proof (cases r1)
    case (Inl c)
    with Cons.prems b have "r = r1" "st' = st1" by simp_all
    with n1 show ?thesis by blast
  next
    case (Inr u)
    with Cons.prems b have rest: "backup_volumes env g cid now vs st1 = (r, st')" by simp
    from Cons.IH [OF rest] obtain new2 where
      n2: "trace st' = trace st1 @ new2" "list_all loop_event new2"
        "\<forall>n ex. Called (Validate_afs_exists n) (Raised ex) \<in> set new2 \<longrightarrow>
              r = Inl (Raise ex) \<and> last new2 = Called (Validate_afs_exists n) (Raised ex)"
      by blast
    from n1(3) Inr have no1: "\<forall>n ex. Called (Validate_afs_exists n) (Raised ex) \<notin> set new1"
      by auto
    have "trace st' = trace st @ (new1 @ new2)" using n1(1) n2(1) by simp
    moreover have "list_all loop_event (new1 @ new2)" using n1(2) n2(2) by simp
    moreover have "\<forall>n ex. Called (Validate_afs_exists n) (Raised ex) \<in> set (new1 @ new2) \<longrightarrow>
              r = Inl (Raise ex) \<and> last (new1 @ new2) = Called (Validate_afs_exists n) (Raised ex)"
      using no1 n2(3) by (auto simp: last_append)
    ultimately show ?thesis by blast
  qed
qed

lemma loop_event_excludes:
  "loop_event ev \<Longrightarrow> \<not> is_summary ev \<and> \<not> run_error ev"
  by (cases ev) (auto simp: preds split: message.splits)

lemma loop_events_exclude:
  assumes "list_all loop_event new"
  shows "filter is_summary new = []" "filter run_error new = []"
    "Called Validate_storage r \<notin> set new" "Called (Get_afs_list x) r \<notin> set new"
    "Called Is_softdelete_enabled r \<notin> set new"
    "Called (Enable_file_share_softdelete d) r \<notin> set new"
    "Log l (No_AFS_volumes_found s) \<notin> set new"
proof -
  show "filter is_summary new = []" "filter run_error new = []"
    using assms by (auto simp: list_all_iff filter_empty_conv dest: loop_event_excludes)
  have "\<And>ev. ev \<in> set new \<Longrightarrow> loop_event ev"
    using assms by (simp add: list_all_iff)
  then show "Called Validate_storage r \<notin> set new" "Called (Get_afs_list x) r \<notin> set new"
    "Called Is_softdelete_enabled r \<notin> set new"
    "Called (Enable_file_share_softdelete d) r \<notin> set new"
    "Log l (No_AFS_volumes_found s) \<notin> set new"
    by (force simp: loop_event_def loop_call_def loop_message_def)+
qed


lemma enable_softdelete_effect:
  "enable_softdelete_in_file_share env os cid now st = (r, st') \<Longrightarrow>
     r = Inr () \<and> snapshots_created st' = snapshots_created st
     \<and> (\<exists>new. trace st' = trace st @ new
          \<and> filter is_summary new = [] \<and> filter run_error new = []
          \<and> filter volume_call new = [] \<and> filter success_alert new = []
          \<and> filter create_succeeded new = []
          \<and> length (filter fail_alert new) \<le> 1
          \<and> (\<forall>r. Called Validate_storage r \<notin> set new)
          \<and> (\<forall>x r. Called (Get_afs_list x) r \<notin> set new)
          \<and> (\<forall>l s. Log l (No_AFS_volumes_found s) \<notin> set new)
          \<and> (\<forall>n r. Called (Validate_afs_exists n) r \<notin> set new))"
  by (auto simp: enable_softdelete_in_file_share_def prims preds
      split: sum.splits prod.splits control.splits if_splits)

lemma backup_after_validation_exists_check:
  "backup_after_validation env g cid now st = (r, st') \<Longrightarrow>
     \<exists>new. trace st' = trace st @ new
        \<and> (\<forall>r. Called Validate_storage r \<notin> set new)
        \<and> (\<forall>n ex. Called (Validate_afs_exists n) (Raised ex) \<in> set new \<longrightarrow>
              r = Inl (Raise ex) \<and> last new = Called (Validate_afs_exists n) (Raised ex))"
  by (auto simp: backup_after_validation_def prims last_append loop_events_exclude
      split: sum.splits prod.splits control.splits if_splits
      dest!: backup_volumes_effect enable_softdelete_effect)

lemma backup_try_exists_check:
  "backup_try env g cid now st = (r, st') \<Longrightarrow>
     \<exists>new. trace st' = trace st @ new
        \<and> (\<forall>n ex. Called (Validate_afs_exists n) (Raised ex) \<in> set new \<longrightarrow>
              r = Inl (Raise ex) \<and> last new = Called (Validate_afs_exists n) (Raised ex))"
  by (auto simp: backup_try_def prims last_append
      split: sum.splits prod.splits control.splits if_splits
      dest!: backup_after_validation_exists_check)

lemma backup_after_validation_facts:
  "backup_after_validation env g cid now st = (r, st') \<Longrightarrow>
     \<exists>new. trace st' = trace st @ new
        \<and> (\<forall>r'. Called Validate_storage r' \<notin> set new)
        \<and> filter run_error new = []
        \<and> (\<forall>x l. Called (Get_afs_list x) (Returned_afs_list l) \<in> set new \<and> total l < 1 \<longrightarrow>
              r = Inl (Exit 0) \<and> filter volume_call new = [] \<and> filter success_alert new = []
              \<and> length (filter fail_alert new) \<le> 1)"
  by (auto simp: backup_after_validation_def prims loop_events_exclude
        run_error_def volume_call_def loop_call_def success_alert_def fail_alert_def
      split: sum.splits prod.splits control.splits if_splits
      dest!: backup_volumes_effect enable_softdelete_effect)

lemma backup_try_facts:
  "backup_try env g cid now st = (r, st') \<Longrightarrow>
     \<exists>new. trace st' = trace st @ new
        \<and> filter run_error new = []
        \<and> (\<forall>ex. Called Validate_storage (Raised ex) \<in> set new \<longrightarrow>
              r = Inl (Raise ex) \<and> filter volume_call new = [] \<and> filter fail_alert new = []
              \<and> filter success_alert new = [])
        \<and> (\<forall>x l. Called (Get_afs_list x) (Returned_afs_list l) \<in> set new \<and> total l < 1 \<longrightarrow>
              r = Inl (Exit 0) \<and> filter volume_call new = [] \<and> filter success_alert new = []
              \<and> length (filter fail_alert new) \<le> 1)"
  by (auto simp: backup_try_def prims
        run_error_def volume_call_def loop_call_def success_alert_def fail_alert_def
      split: sum.splits prod.splits control.splits if_splits
      dest!: backup_after_validation_facts)


lemma create_afs_snapshot_counts:
  "create_afs_snapshot env g a cid now adhoc st = (r, st') \<Longrightarrow>
     r = Inr () \<and> (\<exists>new. trace st' = trace st @ new
        \<and> snapshots_created st' = snapshots_created st + int (length (filter create_succeeded new)))"
  by (auto simp: create_afs_snapshot_def prims create_succeeded_def
      split: sum.splits prod.splits control.splits if_splits)

lemma backup_volume_counts:
  "backup_volume env g cid now a st = (r, st') \<Longrightarrow>
     (\<forall>k. r \<noteq> Inl (Exit k)) \<and>
     (\<exists>new. trace st' = trace st @ new
        \<and> snapshots_created st' = snapshots_created st + int (length (filter create_succeeded new)))"
  by (auto simp: backup_volume_def create_and_alert_def prims create_succeeded_def
      split: sum.splits prod.splits control.splits if_splits
      dest!: create_afs_snapshot_counts)

lemma backup_volumes_counts:
  "backup_volumes env g cid now vs st = (r, st') \<Longrightarrow>
     (\<forall>k. r \<noteq> Inl (Exit k)) \<and>
     (\<exists>new. trace st' = trace st @ new \<and> list_all loop_event new
        \<and> snapshots_created st' = snapshots_created st + int (length (filter create_succeeded new)))"
proof (induction vs arbitrary: st)
  case Nil
  then show ?case by auto
next
  case (Cons v vs)
  obtain r1 st1 where b: "backup_volume env g cid now v st = (r1, st1)"
    by (cases "backup_volume env g cid now v st")
  from backup_volume_effect [OF b] obtain new1 where
    n1: "trace st1 = trace st @ new1" "list_all loop_event new1" by blast
  from backup_volume_counts [OF b] n1(1) have
    c1: "\<forall>k. r1 \<noteq> Inl (Exit k)"
      "snapshots_created st1 = snapshots_created st + int (length (filter create_succeeded new1))"
    by auto
  show ?case
  proof (cases r1)
    case (Inl c)
    with Cons.prems b have "r = r1" "st' = st1" by simp_all
    with n1 c1 show ?thesis by blast
  next
    case (Inr u)
    with Cons.prems b have rest: "backup_volumes env g cid now vs st1 = (r, st')" by simp
    from Cons.IH [OF rest] obtain new2 where
      n2: "\<forall>k. r \<noteq> Inl (Exit k)" "trace st' = trace st1 @ new2" "list_all loop_event new2"
        "snapshots_created st' = snapshots_created st1 + int (length (filter create_succeeded new2))"
      by blast
    have "trace st' = trace st @ (new1 @ new2)" using n1(1) n2(2) by simp
    moreover have "list_all loop_event (new1 @ new2)" using n1(2) n2(3) by simp
    moreover have "snapshots_created st' =
        snapshots_created st + int (length (filter create_succeeded (new1 @ new2)))"
      using c1(2) n2(4) by simp
    ultimately show ?thesis using n2(1) by blast
  qed
qed

lemma backup_after_validation_summary:
  "backup_after_validation env g cid now st = (r, st') \<Longrightarrow>
     (\<forall>k. r = Inl (Exit k) \<longrightarrow> k = 0)
     \<and> (\<exists>new. trace st' = trace st @ new
          \<and> snapshots_created st' = snapshots_created st + int (length (filter create_succeeded new))
          \<and> filter is_summary new =
               (if r = Inr () then [Log Info (Creation_job_completed (snapshots_created st') cid)]
                else [])
          \<and> (r = Inr () \<longrightarrow>
                last new = Log Info (Creation_job_completed (snapshots_created st') cid))
          \<and> (Log Info (No_AFS_volumes_found (object_storage g)) \<in> set new
                \<longleftrightarrow> r = Inl (Exit 0)))"
  by (auto simp: backup_after_validation_def prims loop_events_exclude
        is_summary_def create_succeeded_def
      split: sum.splits prod.splits control.splits if_splits
      dest!: backup_volumes_counts enable_softdelete_effect)

lemma backup_try_summary:
  "backup_try env g cid now st = (r, st') \<Longrightarrow>
     (\<forall>k. r = Inl (Exit k) \<longrightarrow> k = 0)
     \<and> (\<exists>new. trace st' = trace st @ new
          \<and> snapshots_created st' = snapshots_created st + int (length (filter create_succeeded new))
          \<and> filter is_summary new =
               (if r = Inr () then [Log Info (Creation_job_completed (snapshots_created st') cid)]
                else [])
          \<and> (r = Inr () \<longrightarrow>
                last new = Log Info (Creation_job_completed (snapshots_created st') cid))
          \<and> (Log Info (No_AFS_volumes_found (object_storage g)) \<in> set new
                \<longleftrightarrow> r = Inl (Exit 0)))"
  apply (simp add: backup_try_def prims split: sum.splits prod.splits control.splits if_splits)
  apply (intro conjI impI allI)
  apply (auto simp: is_summary_def create_succeeded_def last_append
      dest!: backup_after_validation_summary split: if_splits)
  done




section \<open>Creation flow: the cases of a run\<close>

lemma prelude_event_excludes:
  "prelude_event ev \<Longrightarrow>
     \<not> is_summary ev \<and> \<not> run_error ev \<and> \<not> fail_alert ev \<and> \<not> success_alert ev
     \<and> \<not> volume_call ev \<and> \<not> create_succeeded ev \<and> \<not> delete_succeeded ev"
  by (cases ev) (auto simp: preds prelude_event_def split: message.splits call.splits)

lemma prelude_events_exclude:
  assumes "list_all prelude_event pre"
  shows "filter is_summary pre = []" "filter run_error pre = []" "filter fail_alert pre = []"
    "filter success_alert pre = []" "filter volume_call pre = []"
    "filter create_succeeded pre = []" "filter delete_succeeded pre = []"
  using assms by (auto simp: list_all_iff filter_empty_conv dest: prelude_event_excludes)

lemma prelude_events_calls:
  assumes "list_all prelude_event pre"
  shows "Called Validate_storage r \<notin> set pre" "Called (Get_afs_list x) r \<notin> set pre"
    "Called Is_softdelete_enabled r \<notin> set pre"
    "Called (Enable_file_share_softdelete d) r \<notin> set pre"
    "Called (Validate_afs_exists n) r \<notin> set pre"
    "Called (Get_snapshots n) r \<notin> set pre"
    "Called (Delete_snapshot n s) r \<notin> set pre"
    "Log l (No_AFS_volumes_found os) \<notin> set pre"
proof -
  have "\<And>ev. ev \<in> set pre \<Longrightarrow> prelude_event ev"
    using assms by (simp add: list_all_iff)
  then show "Called Validate_storage r \<notin> set pre" "Called (Get_afs_list x) r \<notin> set pre"
    "Called Is_softdelete_enabled r \<notin> set pre"
    "Called (Enable_file_share_softdelete d) r \<notin> set pre"
    "Called (Validate_afs_exists n) r \<notin> set pre"
    "Called (Get_snapshots n) r \<notin> set pre"
    "Called (Delete_snapshot n s) r \<notin> set pre"
    "Log l (No_AFS_volumes_found os) \<notin> set pre"
    by (force simp: prelude_event_def)+
qed

lemma backup_prelude_facts:
  "backup_prelude env g = ((cid, now), st3) \<Longrightarrow>
     list_all prelude_event (trace st3) \<and> snapshots_created st3 = 0"
  by (auto simp: backup_prelude_def prims prelude_event_def split: if_splits)

lemma backup_main_cases [consumes 1, case_names uncaught returned exited failed]:
  assumes m: "backup_main env g = (code, st)"
  obtains
    (uncaught) pre ex where "code = 1" "snapshots_created st = 0"
      "trace st = pre @ [Traceback ex]" "list_all prelude_event pre"
  | (returned) cid now st4 where "backup_try env g cid now st4 = (Inr (), st)" "code = 0"
      "list_all prelude_event (trace st4)" "snapshots_created st4 = 0"
  | (exited) cid now st4 k where "backup_try env g cid now st4 = (Inl (Exit k), st)" "code = k"
      "list_all prelude_event (trace st4)" "snapshots_created st4 = 0"
  | (failed) cid now st4 st5 ex where "backup_try env g cid now st4 = (Inl (Raise ex), st5)"
      "code = 1" "snapshots_created st = snapshots_created st5"
      "trace st = trace st5 @
         [Traceback ex,
          Alert \<lparr>alert_kind = FAIL, start_time = now,
                 message = Some (Error_backup_runbook ex cid), db_name = None\<rparr>,
          Log Error (Error_backup_runbook ex cid)]"
      "list_all prelude_event (trace st4)" "snapshots_created st4 = 0"
proof -
  obtain cid now st3 where p: "backup_prelude env g = ((cid, now), st3)"
    by (metis prod.exhaust)
  note pf = backup_prelude_facts [OF p]
  show thesis
  proof (cases "get_cid env (tick st3) (resource_group g)")
    case (Inl ex)
    with m p have "code = 1" "snapshots_created st = snapshots_created st3"
      "trace st = (trace st3 @ [Called (Get_cid (resource_group g)) (Raised ex)]) @ [Traceback ex]"
      by (auto simp: backup_main_def exit_status_def prims)
    moreover have "list_all prelude_event (trace st3 @ [Called (Get_cid (resource_group g)) (Raised ex)])"
      using pf by (simp add: prelude_event_def)
    ultimately show thesis using uncaught pf by metis
  next
    case (Inr c)
    define st4 where "st4 = logger_info (Customer_ID c)
      (st3\<lparr>tick := Suc (tick st3),
           trace := trace st3 @ [Called (Get_cid (resource_group g)) (Returned_str c)]\<rparr>)"
    have pf4: "list_all prelude_event (trace st4)" "snapshots_created st4 = 0"
      using pf by (simp_all add: st4_def prims prelude_event_def)
    obtain r st5 where t: "backup_try env g cid now st4 = (r, st5)"
      by (metis prod.exhaust)
    have e: "(code, st) = exit_status (try_except (backup_try env g cid now) (backup_except cid now) st4)"
      using m p Inr by (simp add: backup_main_def invoke_def bind_def st4_def)
    show thesis
    proof (cases r)
      case (Inr u)
      with e t have "code = 0" "st = st5"
        by (simp_all add: try_except_def exit_status_def)
      with returned t Inr pf4 show thesis by simp
    next
      case (Inl c)
      show thesis
      proof (cases c)
        case (Exit k)
        with e t Inl have "code = k" "st = st5"
          by (simp_all add: try_except_def exit_status_def)
        with exited t Inl Exit pf4 show thesis by simp
      next
        case (Raise ex)
        with e t Inl have "code = 1" "snapshots_created st = snapshots_created st5"
          "trace st = trace st5 @
             [Traceback ex,
              Alert \<lparr>alert_kind = FAIL, start_time = now,
                     message = Some (Error_backup_runbook ex cid), db_name = None\<rparr>,
              Log Error (Error_backup_runbook ex cid)]"
          by (simp_all add: try_except_def exit_status_def backup_except_def prims)
        with failed t Inl Raise pf4 show thesis by simp
      qed
    qed
  qed
qed

section \<open>Creation flow: properties of a run\<close>

lemma backup_main_exists_check:
  assumes m: "backup_main env g = (code, st)"
    and f: "Called (Validate_afs_exists n) (Raised ex) \<in> set (trace st)"
  shows "code = 1
    \<and> (\<exists>pre now cid. trace st =
          pre @ [Called (Validate_afs_exists n) (Raised ex), Traceback ex,
                 Alert \<lparr>alert_kind = FAIL, start_time = now,
                        message = Some (Error_backup_runbook ex cid), db_name = None\<rparr>,
                 Log Error (Error_backup_runbook ex cid)])"
  using m
proof (cases rule: backup_main_cases)
  case (uncaught pre ex')
  with f show ?thesis by (auto simp: prelude_events_calls)
next
  case (returned cid now st4)
  from backup_try_exists_check [OF returned(1)] f returned(3) show ?thesis
    by (auto simp: prelude_events_calls)
next
  case (exited cid now st4 k)
  from backup_try_exists_check [OF exited(1)] f exited(3) show ?thesis
    by (auto simp: prelude_events_calls)
next
  case (failed cid now st4 st5 ex')
  from backup_try_exists_check [OF failed(1)] obtain new where
    n: "trace st5 = trace st4 @ new"
      "\<forall>n ex. Called (Validate_afs_exists n) (Raised ex) \<in> set new \<longrightarrow>
              Inl (Raise ex') = (Inl (Raise ex) :: control + unit)
              \<and> last new = Called (Validate_afs_exists n) (Raised ex)"
    by blast
  from f failed(4,5) n(1) have "Called (Validate_afs_exists n) (Raised ex) \<in> set new"
    by (auto simp: prelude_events_calls)
  with n(2) have "ex' = ex" "last new = Called (Validate_afs_exists n) (Raised ex)" "new \<noteq> []"
    by auto
  then have "new = butlast new @ [Called (Validate_afs_exists n) (Raised ex)]"
    by (metis append_butlast_last_id)
  then have "trace st = (trace st4 @ butlast new) @
      [Called (Validate_afs_exists n) (Raised ex), Traceback ex,
       Alert \<lparr>alert_kind = FAIL, start_time = now,
              message = Some (Error_backup_runbook ex cid), db_name = None\<rparr>,
       Log Error (Error_backup_runbook ex cid)]"
    using failed(4) n(1) \<open>ex' = ex\<close> by (metis append.assoc append_Cons append_Nil)
  with failed(2) show ?thesis by blast
qed

lemma backup_main_validation:
  assumes m: "backup_main env g = (code, st)"
  shows "(Called Validate_storage (Raised ex) \<in> set (trace st) \<longrightarrow>
      code = 1
      \<and> length (filter fail_alert (trace st)) = 1
      \<and> filter success_alert (trace st) = []
      \<and> filter volume_call (trace st) = [])
   \<and> (Called (Get_afs_list x) (Returned_afs_list l) \<in> set (trace st) \<and> total l < 1 \<longrightarrow>
      code = 0
      \<and> filter run_error (trace st) = []
      \<and> filter volume_call (trace st) = []
      \<and> filter success_alert (trace st) = [])"
  using m
proof (cases rule: backup_main_cases)
  case (uncaught pre ex')
  then show ?thesis by (auto simp: prelude_events_calls)
next
  case (returned cid now st4)
  from backup_try_facts [OF returned(1)] returned(2,3) show ?thesis
    by (auto simp: prelude_events_calls prelude_events_exclude)
next
  case (exited cid now st4 k)
  from backup_try_facts [OF exited(1)] exited(2,3) show ?thesis
    by (auto simp: prelude_events_calls prelude_events_exclude)
next
  case (failed cid now st4 st5 ex')
  from backup_try_facts [OF failed(1)] failed(2,4,5) show ?thesis
    by (auto simp: prelude_events_calls prelude_events_exclude preds)
qed

lemma backup_main_counters:
  assumes m: "backup_main env g = (code, st)"
  shows "snapshots_created st = int (length (filter create_succeeded (trace st)))
     \<and> length (filter is_summary (trace st)) =
          (if code = 0 \<and> Log Info (No_AFS_volumes_found (object_storage g)) \<notin> set (trace st)
           then 1 else 0)
     \<and> (filter is_summary (trace st) \<noteq> [] \<longrightarrow>
          (\<exists>cid. last (trace st) = Log Info (Creation_job_completed (snapshots_created st) cid)))"
  using m
proof (cases rule: backup_main_cases)
  case (uncaught pre ex')
  then show ?thesis by (simp add: prelude_events_exclude preds)
next
  case (returned cid now st4)
  from backup_try_summary [OF returned(1)] returned(2,3,4) show ?thesis
    by (auto simp: prelude_events_calls prelude_events_exclude last_append)
next
  case (exited cid now st4 k)
  from backup_try_summary [OF exited(1)] exited(2,3,4) show ?thesis
    by (auto simp: prelude_events_calls prelude_events_exclude)
next
  case (failed cid now st4 st5 ex')
  from backup_try_summary [OF failed(1)] failed(2,3,4,5,6) show ?thesis
    by (auto simp: prelude_events_calls prelude_events_exclude preds)
qed

section \<open>Creation flow: a soft-delete failure\<close>






section \<open>Deletion flow: the snapshots of a volume\<close>

lemma snapshot_event_loop: "snapshot_event ev \<Longrightarrow> loop_event ev"
  by (cases ev) (auto simp: snapshot_event_def preds split: message.splits call.splits)

lemma snapshot_events_loop: "list_all snapshot_event new \<Longrightarrow> list_all loop_event new"
  by (auto simp: list_all_iff dest: snapshot_event_loop)

lemma snapshot_events_exclude:
  assumes "list_all snapshot_event new"
  shows "Called (Validate_afs_exists n) r \<notin> set new" "Called (Get_snapshots n) r \<notin> set new"
    "filter success_alert new = []"
proof -
  have *: "\<And>ev. ev \<in> set new \<Longrightarrow> snapshot_event ev"
    using assms by (simp add: list_all_iff)
  then show "Called (Validate_afs_exists n) r \<notin> set new" "Called (Get_snapshots n) r \<notin> set new"
    by (force simp: snapshot_event_def)+
  show "filter success_alert new = []"
    using * by (force simp: filter_empty_conv snapshot_event_def success_alert_def split: event.splits)
qed

lemma delete_snapshot_effect:
  "delete_snapshot env s v cid st = (r, st') \<Longrightarrow>
     (\<exists>b. r = Inr b)
     \<and> (\<exists>new. trace st' = trace st @ new \<and> list_all snapshot_event new
          \<and> deleted_snapshots st' = deleted_snapshots st + int (length (filter delete_succeeded new))
          \<and> (\<forall>v' s' res. Called (Delete_snapshot v' s') res \<in> set new \<longrightarrow> v' = v \<and> s' = s)
          \<and> (\<exists>res. Called (Delete_snapshot v s) res \<in> set new))"
  by (auto simp: delete_snapshot_def prims snapshot_event_def delete_succeeded_def
      split: sum.splits prod.splits control.splits if_splits)

lemma gate_evaluates:
  assumes "retention_days_and_ge_0 s"
  shows "has_snapshot_expired now s = Inr (should_delete now s)"
proof -
  from assms obtain r where r: "retention_days s = Some r"
    by (cases "retention_days s") (simp_all add: retention_days_and_ge_0_def)
  then have e: "has_snapshot_expired now s = Inr (r < days (datetime_sub now (created_at s)))"
    by (simp add: has_snapshot_expired_def)
  then have "should_delete now s = (r < days (datetime_sub now (created_at s)))"
    using assms by (simp add: should_delete_def)
  with e show ?thesis by simp
qed

lemma snapshots_loop_skip:
  assumes "\<not> should_delete now x"
  shows "snapshots_loop env v cid now (x # xs) k st = snapshots_loop env v cid now xs k st"
proof (cases "retention_days_and_ge_0 x")
  case True
  with assms gate_evaluates [OF True, of now] show ?thesis by simp
next
  case False
  then show ?thesis by simp
qed

lemma snapshots_loop_delete:
  assumes "should_delete now x"
  shows "snapshots_loop env v cid now (x # xs) k st =
       (case delete_snapshot env x v cid (logger_info (Deleting_snapshot (name x)) st) of
          (Inl c, st') \<Rightarrow> (Inl c, st')
        | (Inr snapshot_deleted, st') \<Rightarrow>
            snapshots_loop env v cid now xs (if snapshot_deleted then k + 1 else k) st')"
  using assms by (simp add: should_delete_def)

lemma snapshots_loop_effect:
  "snapshots_loop env v cid now xs k st = (r, st') \<Longrightarrow>
     (\<exists>k'. r = Inr k')
     \<and> (\<exists>new. trace st' = trace st @ new \<and> list_all snapshot_event new
          \<and> deleted_snapshots st' = deleted_snapshots st + int (length (filter delete_succeeded new))
          \<and> (\<forall>v' s res. Called (Delete_snapshot v' s) res \<in> set new \<longrightarrow>
                v' = v \<and> s \<in> set xs \<and> should_delete now s)
          \<and> (\<forall>s\<in>set xs. should_delete now s \<longrightarrow>
                (\<exists>res. Called (Delete_snapshot v s) res \<in> set new)))"
proof (induction xs arbitrary: k st)
  case Nil
  then have "r = Inr k" "trace st' = trace st @ []" "deleted_snapshots st' = deleted_snapshots st"
    by simp_all
  then show ?case by fastforce
next
  case (Cons x xs)
  show ?case
  proof (cases "should_delete now x")
    case False
    from Cons.prems have "snapshots_loop env v cid now xs k st = (r, st')"
      unfolding snapshots_loop_skip [OF False] .
    from Cons.IH [OF this] obtain k' new where
      n: "r = Inr k'" "trace st' = trace st @ new" "list_all snapshot_event new"
        "deleted_snapshots st' = deleted_snapshots st + int (length (filter delete_succeeded new))"
        "\<forall>v' s res. Called (Delete_snapshot v' s) res \<in> set new \<longrightarrow>
                v' = v \<and> s \<in> set xs \<and> should_delete now s"
        "\<forall>s\<in>set xs. should_delete now s \<longrightarrow>
                (\<exists>res. Called (Delete_snapshot v s) res \<in> set new)"
      by blast
    have "\<forall>v' s res. Called (Delete_snapshot v' s) res \<in> set new \<longrightarrow>
                v' = v \<and> s \<in> set (x # xs) \<and> should_delete now s"
      using n(5) by simp
    moreover have "\<forall>s\<in>set (x # xs). should_delete now s \<longrightarrow>
                (\<exists>res. Called (Delete_snapshot v s) res \<in> set new)"
      using n(6) False by simp
    ultimately show ?thesis using n(1-4) by blast
  next
    case True
    obtain r1 st1 where d: "delete_snapshot env x v cid (logger_info (Deleting_snapshot (name x)) st) = (r1, st1)"
      by (metis prod.exhaust)
    from delete_snapshot_effect [OF d] obtain b new1 where
      n1: "r1 = Inr b"
        "trace st1 = trace (logger_info (Deleting_snapshot (name x)) st) @ new1"
        "list_all snapshot_event new1"
        "deleted_snapshots st1 = deleted_snapshots (logger_info (Deleting_snapshot (name x)) st)
           + int (length (filter delete_succeeded new1))"
        "\<forall>v' s' res. Called (Delete_snapshot v' s') res \<in> set new1 \<longrightarrow> v' = v \<and> s' = x"
        "\<exists>res. Called (Delete_snapshot v x) res \<in> set new1"
      by blast
    have t1: "trace st1 = trace st @ Log Info (Deleting_snapshot (name x)) # new1"
      and c1: "deleted_snapshots st1 = deleted_snapshots st + int (length (filter delete_succeeded new1))"
      using n1(2,4) by (simp_all add: logger_info_def emit_def)
    from Cons.prems have "(case delete_snapshot env x v cid (logger_info (Deleting_snapshot (name x)) st) of
          (Inl c, st') \<Rightarrow> (Inl c, st')
        | (Inr snapshot_deleted, st') \<Rightarrow>
            snapshots_loop env v cid now xs (if snapshot_deleted then k + 1 else k) st') = (r, st')"
      unfolding snapshots_loop_delete [OF True] .
    with d n1(1) have
      rest: "snapshots_loop env v cid now xs (if b then k + 1 else k) st1 = (r, st')"
      by simp
    from Cons.IH [OF rest] obtain k' new2 where
      n2: "r = Inr k'" "trace st' = trace st1 @ new2" "list_all snapshot_event new2"
        "deleted_snapshots st' = deleted_snapshots st1 + int (length (filter delete_succeeded new2))"
        "\<forall>v' s res. Called (Delete_snapshot v' s) res \<in> set new2 \<longrightarrow>
                v' = v \<and> s \<in> set xs \<and> should_delete now s"
        "\<forall>s\<in>set xs. should_delete now s \<longrightarrow>
                (\<exists>res. Called (Delete_snapshot v s) res \<in> set new2)"
      by blast
    let ?new = "Log Info (Deleting_snapshot (name x)) # new1 @ new2"
    have a: "trace st' = trace st @ ?new" using t1 n2(2) by simp
    have b: "list_all snapshot_event ?new"
      using n1(3) n2(3) by (simp add: snapshot_event_def)
    have c: "deleted_snapshots st' =
        deleted_snapshots st + int (length (filter delete_succeeded ?new))"
      using c1 n2(4) by (simp add: delete_succeeded_def)
    have d': "\<forall>v' s res. Called (Delete_snapshot v' s) res \<in> set ?new \<longrightarrow>
                v' = v \<and> s \<in> set (x # xs) \<and> should_delete now s"
    proof (intro allI impI)
      fix v' s res
      assume "Called (Delete_snapshot v' s) res \<in> set ?new"
      then have "Called (Delete_snapshot v' s) res \<in> set new1
          \<or> Called (Delete_snapshot v' s) res \<in> set new2"
        by simp
      then show "v' = v \<and> s \<in> set (x # xs) \<and> should_delete now s"
        using n1(5) n2(5) True by fastforce
    qed
    have e: "\<forall>s\<in>set (x # xs). should_delete now s \<longrightarrow>
                (\<exists>res. Called (Delete_snapshot v s) res \<in> set ?new)"
    proof (intro ballI impI)
      fix s
      assume "s \<in> set (x # xs)" "should_delete now s"
      then consider "s = x" | "s \<in> set xs" "should_delete now s" by auto
      then show "\<exists>res. Called (Delete_snapshot v s) res \<in> set ?new"
      proof cases
        case 1
        with n1(6) show ?thesis by auto
      next
        case 2
        with n2(6) obtain res where "Called (Delete_snapshot v s) res \<in> set new2" by blast
        then show ?thesis by auto
      qed
    qed
    from n2(1) a b c d' e show ?thesis by blast
  qed
qed

section \<open>Deletion flow: traces that agree with one time\<close>

lemma deletions_ok_append:
  assumes a: "deletions_ok now a" and b: "deletions_ok now b"
  shows "deletions_ok now (a @ b)"
  unfolding deletions_ok_def
proof (intro conjI allI impI)
  fix v s res
  assume "Called (Delete_snapshot v s) res \<in> set (a @ b)"
  then have "Called (Delete_snapshot v s) res \<in> set a \<or> Called (Delete_snapshot v s) res \<in> set b"
    by simp
  then show "should_delete now s"
    using a b unfolding deletions_ok_def by blast
next
  fix v l s
  assume h: "Called (Get_snapshots v) (Returned_snapshot_list l) \<in> set (a @ b)
          \<and> 1 \<le> total l \<and> s \<in> set (snapshots l) \<and> should_delete now s"
  then consider "Called (Get_snapshots v) (Returned_snapshot_list l) \<in> set a"
    | "Called (Get_snapshots v) (Returned_snapshot_list l) \<in> set b"
    by auto
  then show "\<exists>res. Called (Delete_snapshot v s) res \<in> set (a @ b)"
  proof cases
    case 1
    with h a obtain res where "Called (Delete_snapshot v s) res \<in> set a"
      unfolding deletions_ok_def by blast
    then show ?thesis by auto
  next
    case 2
    with h b obtain res where "Called (Delete_snapshot v s) res \<in> set b"
      unfolding deletions_ok_def by blast
    then show ?thesis by auto
  qed
qed

lemma deletions_ok_plain:
  assumes "\<And>v s res. Called (Delete_snapshot v s) res \<notin> set new"
    and "\<And>v l. Called (Get_snapshots v) (Returned_snapshot_list l) \<notin> set new"
  shows "deletions_ok now new"
  unfolding deletions_ok_def using assms by simp

lemma prelude_deletions_ok: "list_all prelude_event pre \<Longrightarrow> deletions_ok now pre"
  by (rule deletions_ok_plain) (simp_all add: prelude_events_calls)

section \<open>Deletion flow: one volume\<close>

lemma delete_snapshots_in_afs_effect:
  assumes d: "delete_snapshots_in_afs env v cid now st = (r, st')"
  shows "r = Inr ()
     \<and> (\<exists>new. trace st' = trace st @ new \<and> list_all loop_event new \<and> deletions_ok now new
          \<and> deleted_snapshots st' = deleted_snapshots st + int (length (filter delete_succeeded new))
          \<and> (\<forall>n r. Called (Validate_afs_exists n) r \<notin> set new)
          \<and> filter success_alert new = [])"
proof (cases "afs_get_snapshots env (tick st) v")
  case (Inl ex)
  with d show ?thesis
    by (auto simp: delete_snapshots_in_afs_def prims preds deletions_ok_def)
next
  case (Inr l)
  show ?thesis
  proof (cases "total l < 1")
    case True
    with d Inr show ?thesis
      by (auto simp: delete_snapshots_in_afs_def prims preds deletions_ok_def)
  next
    case False
    define st2 where "st2 = logger_info (Snapshots_found (total l))
      (st\<lparr>tick := Suc (tick st),
          trace := trace st @ [Log Info Fetching_snapshots_list,
                               Called (Get_snapshots v) (Returned_snapshot_list l)]\<rparr>)"
    obtain rl stl where sl: "snapshots_loop env v cid now (snapshots l) 0 st2 = (rl, stl)"
      by (metis prod.exhaust)
    from snapshots_loop_effect [OF sl] obtain k' new2 where
      n2: "rl = Inr k'" "trace stl = trace st2 @ new2" "list_all snapshot_event new2"
        "deleted_snapshots stl = deleted_snapshots st2 + int (length (filter delete_succeeded new2))"
        "\<forall>v' s res. Called (Delete_snapshot v' s) res \<in> set new2 \<longrightarrow>
                v' = v \<and> s \<in> set (snapshots l) \<and> should_delete now s"
        "\<forall>s\<in>set (snapshots l). should_delete now s \<longrightarrow>
                (\<exists>res. Called (Delete_snapshot v s) res \<in> set new2)"
      by blast
    have res: "r = Inr ()" "st' = logger_info (Snapshots_deleted_in_AFS k' v cid) stl"
      using d Inr False sl n2(1)
      by (simp_all add: delete_snapshots_in_afs_def try_except_def bind_def invoke_def
          st2_def logger_info_def emit_def)
    let ?new = "[Log Info Fetching_snapshots_list, Called (Get_snapshots v) (Returned_snapshot_list l),
        Log Info (Snapshots_found (total l))] @ new2 @ [Log Info (Snapshots_deleted_in_AFS k' v cid)]"
    have a: "trace st' = trace st @ ?new"
      using res(2) n2(2) by (simp add: st2_def logger_info_def emit_def)
    have b: "list_all loop_event ?new"
      using snapshot_events_loop [OF n2(3)] by (simp add: preds)
    have c: "deleted_snapshots st' = deleted_snapshots st + int (length (filter delete_succeeded ?new))"
      using res(2) n2(4) by (simp add: st2_def logger_info_def emit_def delete_succeeded_def)
    have e: "\<forall>n r. Called (Validate_afs_exists n) r \<notin> set ?new"
      using snapshot_events_exclude(1) [OF n2(3)] by simp
    have f: "filter success_alert ?new = []"
      using snapshot_events_exclude(3) [OF n2(3)] by (simp add: success_alert_def)
    have g: "deletions_ok now ?new"
      unfolding deletions_ok_def
    proof (intro conjI allI impI)
      fix v' s res
      assume "Called (Delete_snapshot v' s) res \<in> set ?new"
      then have "Called (Delete_snapshot v' s) res \<in> set new2" by simp
      with n2(5) show "should_delete now s" by blast
    next
      fix v' l' s
      assume h: "Called (Get_snapshots v') (Returned_snapshot_list l') \<in> set ?new
          \<and> 1 \<le> total l' \<and> s \<in> set (snapshots l') \<and> should_delete now s"
      then have "v' = v \<and> l' = l"
        using snapshot_events_exclude(2) [OF n2(3)] by auto
      with h n2(6) obtain res where "Called (Delete_snapshot v s) res \<in> set new2" by blast
      with \<open>v' = v \<and> l' = l\<close> show "\<exists>res. Called (Delete_snapshot v' s) res \<in> set ?new"
        by auto
    qed
    from res(1) a b c e f g show ?thesis by blast
  qed
qed

section \<open>Deletion flow: the volumes\<close>

lemma deletion_volume_effect:
  assumes d: "deletion_volume env cid now v st = (r, st')"
  shows "(\<forall>k. r \<noteq> Inl (Exit k))
     \<and> (\<exists>new. trace st' = trace st @ new \<and> list_all loop_event new \<and> deletions_ok now new
          \<and> deleted_snapshots st' = deleted_snapshots st + int (length (filter delete_succeeded new))
          \<and> (\<forall>n ex. Called (Validate_afs_exists n) (Raised ex) \<in> set new \<longrightarrow>
                r = Inl (Raise ex) \<and> last new = Called (Validate_afs_exists n) (Raised ex)))"
proof (cases "afs_validate_afs_exists env (tick st) v")
  case (Inl ex)
  with d have "r = Inl (Raise ex)"
    "trace st' = trace st @ [Separator, Log Info Validating_AFS_exists,
        Called (Validate_afs_exists v) (Raised ex)]"
    "deleted_snapshots st' = deleted_snapshots st"
    by (auto simp: deletion_volume_def prims)
  moreover have "deletions_ok now [Separator, Log Info Validating_AFS_exists,
        Called (Validate_afs_exists v) (Raised ex)]"
    by (rule deletions_ok_plain) simp_all
  ultimately show ?thesis
    by (auto simp: preds)
next
  case (Inr u)
  define st2 where "st2 = (logger_info Validating_AFS_exists (add_seperator st))
      \<lparr>tick := Suc (tick st),
        trace := trace st @ [Separator, Log Info Validating_AFS_exists,
                             Called (Validate_afs_exists v) Returned]\<rparr>"
  obtain r2 st3 where s: "delete_snapshots_in_afs env v cid now st2 = (r2, st3)"
    by (metis prod.exhaust)
  from delete_snapshots_in_afs_effect [OF s] obtain new2 where
    n2: "r2 = Inr ()" "trace st3 = trace st2 @ new2" "list_all loop_event new2"
      "deletions_ok now new2"
      "deleted_snapshots st3 = deleted_snapshots st2 + int (length (filter delete_succeeded new2))"
      "\<forall>n r. Called (Validate_afs_exists n) r \<notin> set new2"
    by blast
  have res: "r = Inr ()" "st' = alerting_send SUCCESS now None (Some v) st3"
    using d Inr s n2(1)
    by (simp_all add: deletion_volume_def bind_def invoke_def st2_def logger_info_def
        add_seperator_def emit_def)
  let ?pre = "[Separator, Log Info Validating_AFS_exists, Called (Validate_afs_exists v) Returned]"
  let ?post = "[Alert \<lparr>alert_kind = SUCCESS, start_time = now, message = None, db_name = Some v\<rparr>]"
  let ?new = "?pre @ new2 @ ?post"
  have a: "trace st' = trace st @ ?new"
    using res(2) n2(2) by (simp add: st2_def prims)
  have b: "list_all loop_event ?new"
    using n2(3) by (simp add: preds)
  have c: "deleted_snapshots st' = deleted_snapshots st + int (length (filter delete_succeeded ?new))"
    using res(2) n2(5) by (simp add: st2_def prims delete_succeeded_def)
  have "deletions_ok now ?pre" "deletions_ok now ?post"
    by (rule deletions_ok_plain; simp)+
  with n2(4) have e: "deletions_ok now ?new"
    by (intro deletions_ok_append)
  have f: "\<forall>n ex. Called (Validate_afs_exists n) (Raised ex) \<notin> set ?new"
    using n2(6) by simp
  from res(1) a b c e f show ?thesis by blast
qed

lemma deletion_volumes_effect:
  "deletion_volumes env cid now vs st = (r, st') \<Longrightarrow>
     (\<forall>k. r \<noteq> Inl (Exit k))
     \<and> (\<exists>new. trace st' = trace st @ new \<and> list_all loop_event new \<and> deletions_ok now new
          \<and> deleted_snapshots st' = deleted_snapshots st + int (length (filter delete_succeeded new))
          \<and> (\<forall>n ex. Called (Validate_afs_exists n) (Raised ex) \<in> set new \<longrightarrow>
                r = Inl (Raise ex) \<and> last new = Called (Validate_afs_exists n) (Raised ex)))"
proof (induction vs arbitrary: st)
  case Nil
  then have "r = Inr ()" "trace st' = trace st @ []" "deleted_snapshots st' = deleted_snapshots st"
    by simp_all
  moreover have "deletions_ok now []"
    by (rule deletions_ok_plain) simp_all
  ultimately show ?case by fastforce
next
  case (Cons v vs)
  obtain r1 st1 where b: "deletion_volume env cid now v st = (r1, st1)"
    by (metis prod.exhaust)
  from deletion_volume_effect [OF b] obtain new1 where
    n1: "\<forall>k. r1 \<noteq> Inl (Exit k)" "trace st1 = trace st @ new1" "list_all loop_event new1"
      "deletions_ok now new1"
      "deleted_snapshots st1 = deleted_snapshots st + int (length (filter delete_succeeded new1))"
      "\<forall>n ex. Called (Validate_afs_exists n) (Raised ex) \<in> set new1 \<longrightarrow>
              r1 = Inl (Raise ex) \<and> last new1 = Called (Validate_afs_exists n) (Raised ex)"
    by blast
  show ?case
  proof (cases r1)
    case (Inl c)
    with Cons.prems b have "r = r1" "st' = st1" by simp_all
    with n1 show ?thesis by blast
  next
    case (Inr u)
    with Cons.prems b have rest: "deletion_volumes env cid now vs st1 = (r, st')" by simp
    from Cons.IH [OF rest] obtain new2 where
      n2: "\<forall>k. r \<noteq> Inl (Exit k)" "trace st' = trace st1 @ new2" "list_all loop_event new2"
        "deletions_ok now new2"
        "deleted_snapshots st' = deleted_snapshots st1 + int (length (filter delete_succeeded new2))"
        "\<forall>n ex. Called (Validate_afs_exists n) (Raised ex) \<in> set new2 \<longrightarrow>
              r = Inl (Raise ex) \<and> last new2 = Called (Validate_afs_exists n) (Raised ex)"
      by blast
    from n1(6) Inr have no1: "\<forall>n ex. Called (Validate_afs_exists n) (Raised ex) \<notin> set new1"
      by auto
    have "trace st' = trace st @ (new1 @ new2)" using n1(2) n2(2) by simp
    moreover have "list_all loop_event (new1 @ new2)" using n1(3) n2(3) by simp
    moreover have "deletions_ok now (new1 @ new2)"
      using n1(4) n2(4) by (rule deletions_ok_append)
    moreover have "deleted_snapshots st' =
        deleted_snapshots st + int (length (filter delete_succeeded (new1 @ new2)))"
      using n1(5) n2(5) by simp
    moreover have "\<forall>n ex. Called (Validate_afs_exists n) (Raised ex) \<in> set (new1 @ new2) \<longrightarrow>
              r = Inl (Raise ex) \<and> last (new1 @ new2) = Called (Validate_afs_exists n) (Raised ex)"
      using no1 n2(6) by (auto simp: last_append)
    ultimately show ?thesis using n2(1) by blast
  qed
qed

section \<open>Deletion flow: the try block\<close>

lemma plain_eventD:
  "plain_event ev \<Longrightarrow> ev \<noteq> Called (Delete_snapshot v s) res \<and> ev \<noteq> Called (Get_snapshots v) r"
  by (auto simp: plain_event_def)

lemma deletions_ok_Cons_plain:
  assumes "plain_event ev"
  shows "deletions_ok now (ev # xs) = deletions_ok now xs"
proof -
  have "\<And>v s res. ev \<noteq> Called (Delete_snapshot v s) res"
    "\<And>v r. ev \<noteq> Called (Get_snapshots v) r"
    using plain_eventD [OF assms] by blast+
  then show ?thesis
    unfolding deletions_ok_def by (simp add: eq_commute)
qed

lemma deletions_ok_Nil: "deletions_ok now []"
  by (simp add: deletions_ok_def)

lemma deletions_ok_snoc_plain:
  assumes "list_all plain_event ys" "deletions_ok now xs"
  shows "deletions_ok now (xs @ ys)"
proof -
  have "deletions_ok now ys"
    using assms(1) by (induction ys) (simp_all add: deletions_ok_Nil deletions_ok_Cons_plain)
  with assms(2) show ?thesis by (rule deletions_ok_append)
qed

lemma deletion_try_deletions:
  "deletion_try env g cid now st = (r, st') \<Longrightarrow>
     \<exists>new. trace st' = trace st @ new \<and> deletions_ok now new"
  apply (simp add: deletion_try_def prims split: sum.splits prod.splits control.splits if_splits)
  apply (auto simp: deletions_ok_Cons_plain deletions_ok_Nil plain_event_def
      intro!: deletions_ok_snoc_plain dest!: deletion_volumes_effect)
  done

lemma deletion_try_exists_check:
  "deletion_try env g cid now st = (r, st') \<Longrightarrow>
     \<exists>new. trace st' = trace st @ new
        \<and> (\<forall>n ex. Called (Validate_afs_exists n) (Raised ex) \<in> set new \<longrightarrow>
              r = Inl (Raise ex) \<and> last new = Called (Validate_afs_exists n) (Raised ex))"
  apply (simp add: deletion_try_def prims split: sum.splits prod.splits control.splits if_splits)
  apply (auto simp: last_append dest!: deletion_volumes_effect)
  done

section \<open>Deletion flow: the cases of a run\<close>

lemma deletion_try_facts:
  "deletion_try env g cid now st = (r, st') \<Longrightarrow>
     \<exists>new. trace st' = trace st @ new
        \<and> filter run_error new = []
        \<and> (\<forall>ex. Called Validate_storage (Raised ex) \<in> set new \<longrightarrow>
              r = Inl (Raise ex) \<and> filter volume_call new = [] \<and> filter fail_alert new = []
              \<and> filter success_alert new = [])
        \<and> (\<forall>x l. Called (Get_afs_list x) (Returned_afs_list l) \<in> set new \<and> total l < 1 \<longrightarrow>
              r = Inl (Exit 0) \<and> filter volume_call new = [] \<and> filter success_alert new = []
              \<and> filter fail_alert new = [])"
  apply (simp add: deletion_try_def prims split: sum.splits prod.splits control.splits if_splits)
  apply (auto simp: loop_events_exclude
        run_error_def volume_call_def loop_call_def success_alert_def fail_alert_def
      dest!: deletion_volumes_effect)
  done

lemma deletion_try_summary:
  "deletion_try env g cid now st = (r, st') \<Longrightarrow>
     (\<forall>k. r = Inl (Exit k) \<longrightarrow> k = 0)
     \<and> (\<exists>new. trace st' = trace st @ new
          \<and> deleted_snapshots st' = deleted_snapshots st + int (length (filter delete_succeeded new))
          \<and> filter is_summary new =
               (if r = Inr () then [Log Info (Deletion_job_completed (deleted_snapshots st') cid)]
                else [])
          \<and> (r = Inr () \<longrightarrow>
                last new = Log Info (Deletion_job_completed (deleted_snapshots st') cid))
          \<and> (Log Info (No_AFS_volumes_found (object_storage g)) \<in> set new
                \<longleftrightarrow> r = Inl (Exit 0)))"
  apply (simp add: deletion_try_def prims split: sum.splits prod.splits control.splits if_splits)
  apply (auto simp: is_summary_def delete_succeeded_def last_append loop_events_exclude
      dest!: deletion_volumes_effect)
  done

lemma deletion_prelude_facts:
  "deletion_prelude env g = ((cid, now), st3) \<Longrightarrow>
     list_all prelude_event (trace st3) \<and> deleted_snapshots st3 = 0
     \<and> now = get_current_datetime env 1"
  by (auto simp: deletion_prelude_def prims prelude_event_def)

lemma deletion_main_cases [consumes 1, case_names uncaught returned exited failed]:
  assumes m: "deletion_main env g = (code, st)"
  obtains
    (uncaught) pre ex where "code = 1" "deleted_snapshots st = 0"
      "trace st = pre @ [Traceback ex]" "list_all prelude_event pre"
  | (returned) cid st4 where
      "deletion_try env g cid (get_current_datetime env 1) st4 = (Inr (), st)" "code = 0"
      "list_all prelude_event (trace st4)" "deleted_snapshots st4 = 0"
  | (exited) cid st4 k where
      "deletion_try env g cid (get_current_datetime env 1) st4 = (Inl (Exit k), st)" "code = k"
      "list_all prelude_event (trace st4)" "deleted_snapshots st4 = 0"
  | (failed) cid st4 st5 ex where
      "deletion_try env g cid (get_current_datetime env 1) st4 = (Inl (Raise ex), st5)"
      "code = 1" "deleted_snapshots st = deleted_snapshots st5"
      "trace st = trace st5 @
         [Traceback ex,
          Alert \<lparr>alert_kind = FAIL, start_time = get_current_datetime env 1,
                 message = Some (Error_deletion_runbook ex cid), db_name = None\<rparr>,
          Log Error (Error_deletion_runbook ex cid)]"
      "list_all prelude_event (trace st4)" "deleted_snapshots st4 = 0"
proof -
  obtain cid now st3 where p: "deletion_prelude env g = ((cid, now), st3)"
    by (metis prod.exhaust)
  note pf = deletion_prelude_facts [OF p]
  from pf have now: "now = get_current_datetime env 1" by simp
  show thesis
  proof (cases "get_cid env (tick st3) (resource_group g)")
    case (Inl ex)
    with m p have "code = 1" "deleted_snapshots st = deleted_snapshots st3"
      "trace st = (trace st3 @ [Called (Get_cid (resource_group g)) (Raised ex)]) @ [Traceback ex]"
      by (auto simp: deletion_main_def exit_status_def prims)
    moreover have "list_all prelude_event (trace st3 @ [Called (Get_cid (resource_group g)) (Raised ex)])"
      using pf by (simp add: prelude_event_def)
    ultimately show thesis using uncaught pf by metis
  next
    case (Inr c)
    define st4 where "st4 = logger_info (Customer_ID c)
      (st3\<lparr>tick := Suc (tick st3),
           trace := trace st3 @ [Called (Get_cid (resource_group g)) (Returned_str c)]\<rparr>)"
    have pf4: "list_all prelude_event (trace st4)" "deleted_snapshots st4 = 0"
      using pf by (simp_all add: st4_def prims prelude_event_def)
    obtain r st5 where t: "deletion_try env g cid (get_current_datetime env 1) st4 = (r, st5)"
      by (metis prod.exhaust)
    have e: "(code, st) = exit_status (try_except (deletion_try env g cid (get_current_datetime env 1))
        (deletion_except cid (get_current_datetime env 1)) st4)"
      using m p Inr now by (simp add: deletion_main_def invoke_def bind_def st4_def)
    show thesis
    proof (cases r)
      case (Inr u)
      with e t have "code = 0" "st = st5"
        by (simp_all add: try_except_def exit_status_def)
      with returned t Inr pf4 show thesis by simp
    next
      case (Inl c)
      show thesis
      proof (cases c)
        case (Exit k)
        with e t Inl have "code = k" "st = st5"
          by (simp_all add: try_except_def exit_status_def)
        with exited t Inl Exit pf4 show thesis by simp
      next
        case (Raise ex)
        with e t Inl have "code = 1" "deleted_snapshots st = deleted_snapshots st5"
          "trace st = trace st5 @
             [Traceback ex,
              Alert \<lparr>alert_kind = FAIL, start_time = get_current_datetime env 1,
                     message = Some (Error_deletion_runbook ex cid), db_name = None\<rparr>,
              Log Error (Error_deletion_runbook ex cid)]"
          by (simp_all add: try_except_def exit_status_def deletion_except_def prims)
        with failed t Inl Raise pf4 show thesis by simp
      qed
    qed
  qed
qed

section \<open>Deletion flow: properties of a run\<close>

lemma deletion_main_exists_check:
  assumes m: "deletion_main env g = (code, st)"
    and f: "Called (Validate_afs_exists n) (Raised ex) \<in> set (trace st)"
  shows "code = 1
    \<and> (\<exists>pre now cid. trace st =
          pre @ [Called (Validate_afs_exists n) (Raised ex), Traceback ex,
                 Alert \<lparr>alert_kind = FAIL, start_time = now,
                        message = Some (Error_deletion_runbook ex cid), db_name = None\<rparr>,
                 Log Error (Error_deletion_runbook ex cid)])"
  using m
proof (cases rule: deletion_main_cases)
  case (uncaught pre ex')
  with f show ?thesis by (auto simp: prelude_events_calls)
next
  case (returned cid st4)
  from deletion_try_exists_check [OF returned(1)] f returned(3) show ?thesis
    by (auto simp: prelude_events_calls)
next
  case (exited cid st4 k)
  from deletion_try_exists_check [OF exited(1)] f exited(3) show ?thesis
    by (auto simp: prelude_events_calls)
next
  case (failed cid st4 st5 ex')
  from deletion_try_exists_check [OF failed(1)] obtain new where
    n: "trace st5 = trace st4 @ new"
      "\<forall>n ex. Called (Validate_afs_exists n) (Raised ex) \<in> set new \<longrightarrow>
              Inl (Raise ex') = (Inl (Raise ex) :: control + unit)
              \<and> last new = Called (Validate_afs_exists n) (Raised ex)"
    by blast
  from f failed(4,5) n(1) have "Called (Validate_afs_exists n) (Raised ex) \<in> set new"
    by (auto simp: prelude_events_calls)
  with n(2) have "ex' = ex" "last new = Called (Validate_afs_exists n) (Raised ex)" "new \<noteq> []"
    by auto
  then have "new = butlast new @ [Called (Validate_afs_exists n) (Raised ex)]"
    by (metis append_butlast_last_id)
  then have "trace st = (trace st4 @ butlast new) @
      [Called (Validate_afs_exists n) (Raised ex), Traceback ex,
       Alert \<lparr>alert_kind = FAIL, start_time = get_current_datetime env 1,
              message = Some (Error_deletion_runbook ex cid), db_name = None\<rparr>,
       Log Error (Error_deletion_runbook ex cid)]"
    using failed(4) n(1) \<open>ex' = ex\<close> by (metis append.assoc append_Cons append_Nil)
  with failed(2) show ?thesis by blast
qed

lemma deletion_main_validation:
  assumes m: "deletion_main env g = (code, st)"
  shows "(Called Validate_storage (Raised ex) \<in> set (trace st) \<longrightarrow>
      code = 1
      \<and> length (filter fail_alert (trace st)) = 1
      \<and> filter success_alert (trace st) = []
      \<and> filter volume_call (trace st) = [])
   \<and> (Called (Get_afs_list x) (Returned_afs_list l) \<in> set (trace st) \<and> total l < 1 \<longrightarrow>
      code = 0
      \<and> filter run_error (trace st) = []
      \<and> filter volume_call (trace st) = []
      \<and> filter success_alert (trace st) = []
      \<and> filter fail_alert (trace st) = [])"
  using m
proof (cases rule: deletion_main_cases)
  case (uncaught pre ex')
  then show ?thesis by (auto simp: prelude_events_calls)
next
  case (returned cid st4)
  from deletion_try_facts [OF returned(1)] returned(2,3) show ?thesis
    by (auto simp: prelude_events_calls prelude_events_exclude)
next
  case (exited cid st4 k)
  from deletion_try_facts [OF exited(1)] exited(2,3) show ?thesis
    by (auto simp: prelude_events_calls prelude_events_exclude)
next
  case (failed cid st4 st5 ex')
  from deletion_try_facts [OF failed(1)] failed(2,4,5) show ?thesis
    by (auto simp: prelude_events_calls prelude_events_exclude preds)
qed

lemma deletion_main_counters:
  assumes m: "deletion_main env g = (code, st)"
  shows "deleted_snapshots st = int (length (filter delete_succeeded (trace st)))
     \<and> length (filter is_summary (trace st)) =
          (if code = 0 \<and> Log Info (No_AFS_volumes_found (object_storage g)) \<notin> set (trace st)
           then 1 else 0)
     \<and> (filter is_summary (trace st) \<noteq> [] \<longrightarrow>
          (\<exists>cid. last (trace st) = Log Info (Deletion_job_completed (deleted_snapshots st) cid)))"
  using m
proof (cases rule: deletion_main_cases)
  case (uncaught pre ex')
  then show ?thesis by (simp add: prelude_events_exclude preds)
next
  case (returned cid st4)
  from deletion_try_summary [OF returned(1)] returned(2,3,4) show ?thesis
    by (auto simp: prelude_events_calls prelude_events_exclude last_append)
next
  case (exited cid st4 k)
  from deletion_try_summary [OF exited(1)] exited(2,3,4) show ?thesis
    by (auto simp: prelude_events_calls prelude_events_exclude)
next
  case (failed cid st4 st5 ex')
  from deletion_try_summary [OF failed(1)] failed(2,3,4,5,6) show ?thesis
    by (auto simp: prelude_events_calls prelude_events_exclude preds)
qed

lemma deletion_main_deletions:
  assumes m: "deletion_main env g = (code, st)"
  shows "deletions_ok (get_current_datetime env 1) (trace st)"
  using m
proof (cases rule: deletion_main_cases)
  case (uncaught pre ex')
  have "list_all plain_event [Traceback ex']" by (simp add: plain_event_def)
  with prelude_deletions_ok [OF uncaught(4)] uncaught(3) show ?thesis
    by (simp add: deletions_ok_snoc_plain)
next
  case (returned cid st4)
  from deletion_try_deletions [OF returned(1)] obtain new where
    n: "trace st = trace st4 @ new" "deletions_ok (get_current_datetime env 1) new"
    by blast
  from prelude_deletions_ok [OF returned(3)] n(2) show ?thesis
    unfolding n(1) by (rule deletions_ok_append)
next
  case (exited cid st4 k)
  from deletion_try_deletions [OF exited(1)] obtain new where
    n: "trace st = trace st4 @ new" "deletions_ok (get_current_datetime env 1) new"
    by blast
  from prelude_deletions_ok [OF exited(3)] n(2) show ?thesis
    unfolding n(1) by (rule deletions_ok_append)
next
  case (failed cid st4 st5 ex')
  from deletion_try_deletions [OF failed(1)] obtain new where
    n: "trace st5 = trace st4 @ new" "deletions_ok (get_current_datetime env 1) new"
    by blast
  from prelude_deletions_ok [OF failed(5)] n(2)
  have "deletions_ok (get_current_datetime env 1) (trace st5)"
    unfolding n(1) by (rule deletions_ok_append)
  then show ?thesis
    unfolding failed(4) by (rule deletions_ok_snoc_plain [rotated]) (simp add: plain_event_def)
qed

section \<open>The counters at a mutating call\<close>

lemma create_afs_snapshot_counter:
  "snapshots_created (snd (create_afs_snapshot env g a cid now adhoc st)) =
     snapshots_created st +
       (if afs_validate_afs_snapshots_storage_limit env (tick st) a AFS_TOTAL_SNAPSHOTS_LIMIT = Inr ()
           \<and> afs_create_snapshot env (Suc (tick st)) a (retention_days_g g) adhoc = Inr ()
        then 1 else 0)"
  by (auto simp: create_afs_snapshot_def prims split: sum.splits)

lemma delete_snapshot_counter:
  "deleted_snapshots (snd (delete_snapshot env s a cid st)) =
     deleted_snapshots st + (if afs_delete_snapshot env (Suc (tick st)) a s = Inr () then 1 else 0)"
  by (auto simp: delete_snapshot_def prims split: sum.splits)

lemma should_delete_cong:
  "created_at s' = created_at s \<Longrightarrow> retention_days s' = retention_days s \<Longrightarrow>
     should_delete now s' = should_delete now s"
  by (simp add: should_delete_def retention_days_and_ge_0_def has_snapshot_expired_def)

lemma deletions_okD:
  assumes "deletions_ok now tr"
    and "Called (Get_snapshots v) (Returned_snapshot_list l) \<in> set tr" "1 \<le> total l"
    and "s \<in> set (snapshots l)"
  shows "(\<exists>res. Called (Delete_snapshot v s) res \<in> set tr) \<longleftrightarrow> should_delete now s"
  using assms unfolding deletions_ok_def by blast

lemmas deletion_defs = deletion_main_def deletion_prelude_def deletion_except_def exit_status_def
  deletion_try_def deletion_volume_def delete_snapshots_in_afs_def delete_snapshot_def
  retention_days_and_ge_0_def has_snapshot_expired_def datetime_sub_def

section \<open>The expiration check\<close>

lemma days_floor: "days (datetime_sub a b) = \<lfloor>real_of_int (a - b) / 86400000000\<rfloor>"
proof -
  have "\<lfloor>real_of_int (a - b) / real_of_int 86400000000\<rfloor> = (a - b) div 86400000000"
    by (rule floor_divide_of_int_eq)
  then show ?thesis
    by (simp add: datetime_sub_def Let_def)
qed

text \<open>
  C1. For a snapshot whose \<open>retention_days\<close> is not null, the expiration check returns
  true exactly when the whole number of days since \<open>created_at\<close>, the floor of the
  difference in days, is strictly greater than \<open>retention_days\<close>: a snapshot whose age in
  days equals its retention is kept, one a day older is expired.
\<close>

theorem has_snapshot_expired_iff:
  "retention_days snapshot = Some r \<Longrightarrow>
     has_snapshot_expired now snapshot
       = Inr (r < \<lfloor>real_of_int (now - created_at snapshot) / 86400000000\<rfloor>)
   \<and> (\<lfloor>real_of_int (now - created_at snapshot) / 86400000000\<rfloor> = r
        \<longrightarrow> has_snapshot_expired now snapshot = Inr False)
   \<and> (\<lfloor>real_of_int (now - created_at snapshot) / 86400000000\<rfloor> = r + 1
        \<longrightarrow> has_snapshot_expired now snapshot = Inr True)"
  unfolding has_snapshot_expired_def Let_def days_floor by simp

theorem has_snapshot_expired_iff_witness:
  "retention_days \<lparr>name = ''s'', created_at = 0, retention_days = Some 30\<rparr> = Some 30
   \<and> has_snapshot_expired (31 * 86400000000 - 1)
        \<lparr>name = ''s'', created_at = 0, retention_days = Some 30\<rparr> = Inr False
   \<and> has_snapshot_expired (31 * 86400000000)
        \<lparr>name = ''s'', created_at = 0, retention_days = Some 30\<rparr> = Inr True"
  using has_snapshot_expired_iff
          [of "\<lparr>name = ''s'', created_at = 0, retention_days = Some 30\<rparr>" 30 "31 * 86400000000 - 1"]
        has_snapshot_expired_iff
          [of "\<lparr>name = ''s'', created_at = 0, retention_days = Some 30\<rparr>" 30 "31 * 86400000000"]
  by (simp add: floor_divide_of_int_eq [of _ 86400000000, simplified])


section \<open>The ad-hoc retention values\<close>

lemma not_allowed_text:
  "''The retention days for adhoc backup must be from: [''
     @ join '', '' (map str_int allowed_adhoc_backup_retention_days_list) @ '']''
   = ''The retention days for adhoc backup must be from: [3, 7, 15, 30, 45, 60, 67, 90, 180, 365, 730, 1095, 1460, 1825]''"
  by code_simp

text \<open>
  C6. When \<^verbatim>\<open>int(rdays)\<close> yields the integer \<open>n\<close>, the ad-hoc validation succeeds exactly
  when \<open>n\<close> is one of the 14 allowed values, and raises the exception with the list of
  the allowed values for every other \<open>n\<close>; the list has 14 distinct members.
\<close>

theorem validate_allowed_adhoc_backup_retention_days_iff:
  "py_int env rdays = Inr n \<Longrightarrow>
     (validate_allowed_adhoc_backup_retention_days env rdays = Inr ()
        \<longleftrightarrow> n \<in> {3, 7, 15, 30, 45, 60, 67, 90, 180, 365, 730, 1095, 1460, 1825})
   \<and> (n \<notin> {3, 7, 15, 30, 45, 60, 67, 90, 180, 365, 730, 1095, 1460, 1825} \<longrightarrow>
        validate_allowed_adhoc_backup_retention_days env rdays
          = Inl (Exception ''The retention days for adhoc backup must be from: [3, 7, 15, 30, 45, 60, 67, 90, 180, 365, 730, 1095, 1460, 1825]''))
   \<and> length allowed_adhoc_backup_retention_days_list = 14
   \<and> distinct allowed_adhoc_backup_retention_days_list"
  unfolding validate_allowed_adhoc_backup_retention_days_def not_allowed_text
  by (simp add: allowed_adhoc_backup_retention_days_list_def)

theorem validate_allowed_adhoc_backup_retention_days_iff_witness:
  "py_int (example_env [] [] [] [] []) ''90'' = Inr 90
   \<and> validate_allowed_adhoc_backup_retention_days (example_env [] [] [] [] []) ''90'' = Inr ()
   \<and> py_int (example_env [] [] [] [] []) ''91'' = Inr 91
   \<and> validate_allowed_adhoc_backup_retention_days (example_env [] [] [] [] []) ''91''
        = Inl (Exception ''The retention days for adhoc backup must be from: [3, 7, 15, 30, 45, 60, 67, 90, 180, 365, 730, 1095, 1460, 1825]'')"
proof -
  have a: "py_int (example_env [] [] [] [] []) ''90'' = Inr 90"
    by (simp add: example_env_def)
  have b: "py_int (example_env [] [] [] [] []) ''91'' = Inr 91"
    by (simp add: example_env_def)
  show ?thesis
    using validate_allowed_adhoc_backup_retention_days_iff [OF a]
      validate_allowed_adhoc_backup_retention_days_iff [OF b] a b
    by simp
qed

section \<open>Which snapshots are evaluated\<close>

text \<open>
  C2. A snapshot whose \<open>retention_days\<close> is 0 is present and not negative, yet the loop
  passes over it without evaluating it, whatever its age: the truth test of
  \<^verbatim>\<open>snapshot.retention_days and ...\<close> takes 0 for absent. Evaluated one day after its
  creation, it would be expired.
\<close>

theorem retention_zero_skipped:
  "snapshots_loop env afs_name correlation_id now
     (\<lparr>name = n, created_at = c, retention_days = Some 0\<rparr> # rest) k st
     = snapshots_loop env afs_name correlation_id now rest k st
   \<and> retention_days_and_ge_0 \<lparr>name = n, created_at = c, retention_days = Some 0\<rparr> = False
   \<and> has_snapshot_expired (c + 86400000000) \<lparr>name = n, created_at = c, retention_days = Some 0\<rparr>
       = Inr True"
  by (simp add: retention_days_and_ge_0_def has_snapshot_expired_def datetime_sub_def)

section \<open>Skipping a volume already snapshotted today\<close>



section \<open>One reading of the clock for every snapshot\<close>

text \<open>
  C10. \<^verbatim>\<open>main\<close> reads the clock once, as the second call of the environment, and every
  expiration check of the run uses that value: for a snapshot of a listed volume a deletion
  is requested exactly when the guard holds and the snapshot is expired at that time. Two
  snapshots with equal \<open>created_at\<close> and \<open>retention_days\<close>, of whichever volumes and however
  late in the run, therefore get the same verdict.
\<close>

theorem one_now_for_all_snapshots:
  assumes "deletion_main env g = (code, st)"
    and "Called (Get_snapshots v) (Returned_snapshot_list l) \<in> set (trace st)"
    and "1 \<le> total l" and "s \<in> set (snapshots l)"
    and "Called (Get_snapshots v') (Returned_snapshot_list l') \<in> set (trace st)"
    and "1 \<le> total l'" and "s' \<in> set (snapshots l')"
    and "created_at s' = created_at s" and "retention_days s' = retention_days s"
  shows "((\<exists>res. Called (Delete_snapshot v s) res \<in> set (trace st))
            \<longleftrightarrow> retention_days_and_ge_0 s
                 \<and> has_snapshot_expired (get_current_datetime env 1) s = Inr True)
       \<and> ((\<exists>res. Called (Delete_snapshot v' s') res \<in> set (trace st))
            \<longleftrightarrow> (\<exists>res. Called (Delete_snapshot v s) res \<in> set (trace st)))"
proof -
  note ok = deletion_main_deletions [OF assms(1)]
  have a: "(\<exists>res. Called (Delete_snapshot v s) res \<in> set (trace st))
      \<longleftrightarrow> should_delete (get_current_datetime env 1) s"
    using ok assms(2-4) by (rule deletions_okD)
  have b: "(\<exists>res. Called (Delete_snapshot v' s') res \<in> set (trace st))
      \<longleftrightarrow> should_delete (get_current_datetime env 1) s'"
    using ok assms(5-7) by (rule deletions_okD)
  from a b should_delete_cong [OF assms(8,9)] show ?thesis
    by (simp add: should_delete_def)
qed

theorem one_now_for_all_snapshots_witness:
  "Called (Get_snapshots ''vol1'')
     (Returned_snapshot_list
        \<lparr>total = 2,
           snapshots = [\<lparr>name = ''kept'', created_at = 0, retention_days = Some 3\<rparr>,
                        \<lparr>name = ''old'', created_at = - 864000000000, retention_days = Some 3\<rparr>]\<rparr>)
     \<in> set (trace (snd (deletion_main
          (example_env [''vol1'', ''vol2''] [] [] []
             [\<lparr>name = ''kept'', created_at = 0, retention_days = Some 3\<rparr>,
              \<lparr>name = ''old'', created_at = - 864000000000, retention_days = Some 3\<rparr>])
          example_deletion_globals)))
   \<and> (\<exists>res. Called (Delete_snapshot ''vol2''
                 \<lparr>name = ''old'', created_at = - 864000000000, retention_days = Some 3\<rparr>) res
     \<in> set (trace (snd (deletion_main
          (example_env [''vol1'', ''vol2''] [] [] []
             [\<lparr>name = ''kept'', created_at = 0, retention_days = Some 3\<rparr>,
              \<lparr>name = ''old'', created_at = - 864000000000, retention_days = Some 3\<rparr>])
          example_deletion_globals))))
   \<and> \<not> (\<exists>res. Called (Delete_snapshot ''vol2''
                 \<lparr>name = ''kept'', created_at = 0, retention_days = Some 3\<rparr>) res
     \<in> set (trace (snd (deletion_main
          (example_env [''vol1'', ''vol2''] [] [] []
             [\<lparr>name = ''kept'', created_at = 0, retention_days = Some 3\<rparr>,
              \<lparr>name = ''old'', created_at = - 864000000000, retention_days = Some 3\<rparr>])
          example_deletion_globals))))"
proof -
  let ?kept = "\<lparr>name = ''kept'', created_at = 0, retention_days = Some 3\<rparr>"
  let ?old = "\<lparr>name = ''old'', created_at = - 864000000000, retention_days = Some 3\<rparr>"
  let ?l = "\<lparr>total = 2, snapshots = [?kept, ?old]\<rparr>"
  let ?env = "example_env [''vol1'', ''vol2''] [] [] [] [?kept, ?old]"
  obtain code st where r: "deletion_main ?env example_deletion_globals = (code, st)"
    by (metis prod.exhaust)
  from r have h: "Called (Get_snapshots ''vol1'') (Returned_snapshot_list ?l) \<in> set (trace st)"
    "Called (Get_snapshots ''vol2'') (Returned_snapshot_list ?l) \<in> set (trace st)"
    by (auto simp: deletion_defs prims example_env_def example_deletion_globals_def)
  have now: "get_current_datetime ?env 1 = 86400000000"
    by (simp add: example_env_def)
  have "(\<exists>res. Called (Delete_snapshot ''vol2'' ?old) res \<in> set (trace st))
      \<longleftrightarrow> (\<exists>res. Called (Delete_snapshot ''vol1'' ?old) res \<in> set (trace st))"
    "(\<exists>res. Called (Delete_snapshot ''vol1'' ?old) res \<in> set (trace st))
      \<longleftrightarrow> retention_days_and_ge_0 ?old
           \<and> has_snapshot_expired (get_current_datetime ?env 1) ?old = Inr True"
    using one_now_for_all_snapshots [OF r h(1) _ _ h(2), of ?old ?old] by simp_all
  moreover have "(\<exists>res. Called (Delete_snapshot ''vol2'' ?kept) res \<in> set (trace st))
      \<longleftrightarrow> (\<exists>res. Called (Delete_snapshot ''vol1'' ?kept) res \<in> set (trace st))"
    "(\<exists>res. Called (Delete_snapshot ''vol1'' ?kept) res \<in> set (trace st))
      \<longleftrightarrow> retention_days_and_ge_0 ?kept
           \<and> has_snapshot_expired (get_current_datetime ?env 1) ?kept = Inr True"
    using one_now_for_all_snapshots [OF r h(1) _ _ h(2), of ?kept ?kept] by simp_all
  ultimately have "(\<exists>res. Called (Delete_snapshot ''vol2'' ?old) res \<in> set (trace st))"
    "\<not> (\<exists>res. Called (Delete_snapshot ''vol2'' ?kept) res \<in> set (trace st))"
    unfolding now by (simp_all add: retention_days_and_ge_0_def has_snapshot_expired_def datetime_sub_def)
  with h(1) r show ?thesis by simp
qed

section \<open>A failed existence check\<close>

text \<open>
  C3, as stated: the run goes on with the volumes that follow the one whose existence check
  failed. In the run below the check of the first of two volumes fails: the process exits
  with status 1, and the failed check is the only call the run makes for any volume.
\<close>

theorem exists_check_failure_counterexample:
  "fst (backup_main (example_env [''vol1'', ''vol2''] [''vol1''] [] [] []) (example_globals False ''30'')) = 1
   \<and> filter volume_call
        (trace (snd (backup_main (example_env [''vol1'', ''vol2''] [''vol1''] [] [] [])
                       (example_globals False ''30''))))
       = [Called (Validate_afs_exists ''vol1'') (Raised (Exception ''not found''))]"
  by (simp add: backup_defs prims preds example_env_def example_globals_def)

text \<open>
  C3, amended. In both runbooks the existence check is made outside every per-volume
  \<^verbatim>\<open>try\<close>: when it raises, the exception reaches the handler of \<^verbatim>\<open>main\<close>. The trace of the
  run then ends with the failed check, the traceback, one FAIL alert and the error line,
  so that no later volume is handled, and the exit status is 1.
\<close>

theorem exists_check_failure_ends_run:
  "(backup_main env g = (code, st)
      \<and> Called (Validate_afs_exists n) (Raised ex) \<in> set (trace st) \<longrightarrow>
    code = 1
    \<and> (\<exists>pre now cid. trace st =
          pre @ [Called (Validate_afs_exists n) (Raised ex), Traceback ex,
                 Alert \<lparr>alert_kind = FAIL, start_time = now,
                        message = Some (Error_backup_runbook ex cid), db_name = None\<rparr>,
                 Log Error (Error_backup_runbook ex cid)]))
   \<and> (deletion_main env d = (code', st')
      \<and> Called (Validate_afs_exists n') (Raised ex') \<in> set (trace st') \<longrightarrow>
    code' = 1
    \<and> (\<exists>pre now cid. trace st' =
          pre @ [Called (Validate_afs_exists n') (Raised ex'), Traceback ex',
                 Alert \<lparr>alert_kind = FAIL, start_time = now,
                        message = Some (Error_deletion_runbook ex' cid), db_name = None\<rparr>,
                 Log Error (Error_deletion_runbook ex' cid)]))"
  using backup_main_exists_check [of env g code st n ex]
    deletion_main_exists_check [of env d code' st' n' ex']
  by blast

theorem exists_check_failure_ends_run_witness:
  "Called (Validate_afs_exists ''vol1'') (Raised (Exception ''not found''))
     \<in> set (trace (snd (backup_main (example_env [''vol1'', ''vol2''] [''vol1''] [] [] [])
                          (example_globals False ''30''))))
   \<and> fst (backup_main (example_env [''vol1'', ''vol2''] [''vol1''] [] [] [])
            (example_globals False ''30'')) = 1
   \<and> Called (Validate_afs_exists ''vol1'') (Raised (Exception ''not found''))
     \<in> set (trace (snd (deletion_main (example_env [''vol1'', ''vol2''] [''vol1''] [] [] [])
                          example_deletion_globals)))
   \<and> fst (deletion_main (example_env [''vol1'', ''vol2''] [''vol1''] [] [] [])
            example_deletion_globals) = 1"
proof -
  let ?env = "example_env [''vol1'', ''vol2''] [''vol1''] [] [] []"
  obtain code st where r: "backup_main ?env (example_globals False ''30'') = (code, st)"
    by (metis prod.exhaust)
  obtain code' st' where r': "deletion_main ?env example_deletion_globals = (code', st')"
    by (metis prod.exhaust)
  from r have h: "Called (Validate_afs_exists ''vol1'') (Raised (Exception ''not found'')) \<in> set (trace st)"
    by (auto simp: backup_defs prims example_env_def example_globals_def)
  from r' have h': "Called (Validate_afs_exists ''vol1'') (Raised (Exception ''not found'')) \<in> set (trace st')"
    by (auto simp: deletion_defs prims example_env_def example_deletion_globals_def)
  from exists_check_failure_ends_run
         [of ?env "example_globals False ''30''" code st "''vol1''" "Exception ''not found''"
             example_deletion_globals code' st' "''vol1''" "Exception ''not found''"]
       r r' h h'
  have "code = 1" "code' = 1" by simp_all
  with r r' h h' show ?thesis by simp
qed

section \<open>The alerts of the creation flow\<close>

text \<open>
  C4. In a run over two volumes where the first creation fails on the snapshot limit and
  the second succeeds, one snapshot is counted, one FAIL alert is sent and the exit status is
  0, but two SUCCESS alerts are sent: \<^verbatim>\<open>main\<close> sends the SUCCESS alert after
  \<^verbatim>\<open>__create_afs_snapshot\<close> returns, and that function returns normally after a failure too.
\<close>

theorem success_alert_after_failed_creation:
  "fst (backup_main (example_env [''vol1'', ''vol2''] [] [''vol1''] [] []) (example_globals False ''30'')) = 0
   \<and> snapshots_created
        (snd (backup_main (example_env [''vol1'', ''vol2''] [] [''vol1''] [] [])
                (example_globals False ''30''))) = 1
   \<and> filter fail_alert
        (trace (snd (backup_main (example_env [''vol1'', ''vol2''] [] [''vol1''] [] [])
                       (example_globals False ''30''))))
       = [Alert \<lparr>alert_kind = FAIL, start_time = 86400000000,
                 message = Some (Skipping_create_snapshot ''vol1'' (Exception ''limit exceeded'') ''run-1''),
                 db_name = None\<rparr>]
   \<and> filter success_alert
        (trace (snd (backup_main (example_env [''vol1'', ''vol2''] [] [''vol1''] [] [])
                       (example_globals False ''30''))))
       = [Alert \<lparr>alert_kind = SUCCESS, start_time = 86400000000, message = None,
                 db_name = Some ''vol1''\<rparr>,
          Alert \<lparr>alert_kind = SUCCESS, start_time = 86400000000, message = None,
                 db_name = Some ''vol2''\<rparr>]"
  by (simp add: backup_defs prims preds example_env_def example_globals_def)

section \<open>Account validation and an empty volume list\<close>

text \<open>
  C7. In a run of either runbook where \<^verbatim>\<open>validate_storage\<close> raises, the exit status is 1,
  exactly one FAIL alert and no SUCCESS alert are sent, and no call is made for any volume.
  In a run where the volume list is fetched and its \<open>total\<close> is below 1, the exit status is
  0, there is neither a traceback nor an error line, and no call is made for any volume.
\<close>

theorem validation_failure_is_fatal:
  "(backup_main env g = (code, st) \<and> Called Validate_storage (Raised ex) \<in> set (trace st) \<longrightarrow>
      code = 1
      \<and> length (filter fail_alert (trace st)) = 1
      \<and> filter success_alert (trace st) = []
      \<and> filter volume_call (trace st) = [])
   \<and> (backup_main env g = (code, st)
        \<and> Called (Get_afs_list x) (Returned_afs_list l) \<in> set (trace st) \<and> total l < 1 \<longrightarrow>
      code = 0
      \<and> filter run_error (trace st) = []
      \<and> filter volume_call (trace st) = []
      \<and> filter success_alert (trace st) = [])
   \<and> (deletion_main env d = (code', st') \<and> Called Validate_storage (Raised ex) \<in> set (trace st') \<longrightarrow>
      code' = 1
      \<and> length (filter fail_alert (trace st')) = 1
      \<and> filter success_alert (trace st') = []
      \<and> filter volume_call (trace st') = [])
   \<and> (deletion_main env d = (code', st')
        \<and> Called (Get_afs_list x) (Returned_afs_list l) \<in> set (trace st') \<and> total l < 1 \<longrightarrow>
      code' = 0
      \<and> filter run_error (trace st') = []
      \<and> filter volume_call (trace st') = []
      \<and> filter success_alert (trace st') = []
      \<and> filter fail_alert (trace st') = [])"
  using backup_main_validation [of env g code st ex x l]
    deletion_main_validation [of env d code' st' ex x l]
  by blast

theorem validation_failure_is_fatal_witness:
  "Called Validate_storage (Raised (Exception ''no such account''))
     \<in> set (trace (snd (backup_main
          ((example_env [''vol1''] [] [] [] [])
             \<lparr>sm_validate_storage := (\<lambda>t. Inl (Exception ''no such account''))\<rparr>)
          (example_globals False ''30''))))
   \<and> fst (backup_main
          ((example_env [''vol1''] [] [] [] [])
             \<lparr>sm_validate_storage := (\<lambda>t. Inl (Exception ''no such account''))\<rparr>)
          (example_globals False ''30'')) = 1
   \<and> Called (Get_afs_list '''') (Returned_afs_list \<lparr>total = 0, afs_list = []\<rparr>)
     \<in> set (trace (snd (deletion_main (example_env [] [] [] [] []) example_deletion_globals)))
   \<and> fst (deletion_main (example_env [] [] [] [] []) example_deletion_globals) = 0"
proof -
  let ?bad = "(example_env [''vol1''] [] [] [] [])
      \<lparr>sm_validate_storage := (\<lambda>t. Inl (Exception ''no such account''))\<rparr>"
  let ?none = "example_env [] [] [] [] []"
  obtain code st where r: "backup_main ?bad (example_globals False ''30'') = (code, st)"
    by (metis prod.exhaust)
  obtain code' st' where r': "deletion_main ?none example_deletion_globals = (code', st')"
    by (metis prod.exhaust)
  from r have h: "Called Validate_storage (Raised (Exception ''no such account'')) \<in> set (trace st)"
    by (auto simp: backup_defs prims example_env_def example_globals_def)
  from r' have h': "Called (Get_afs_list '''') (Returned_afs_list \<lparr>total = 0, afs_list = []\<rparr>)
      \<in> set (trace st')"
    by (auto simp: deletion_defs prims example_env_def example_deletion_globals_def)
  from validation_failure_is_fatal
         [of ?bad "example_globals False ''30''" code st "Exception ''no such account''"]
       r h
  have "code = 1" by simp
  moreover from validation_failure_is_fatal
         [of ?none _ _ _ _ "''''" "\<lparr>total = 0, afs_list = []\<rparr>" example_deletion_globals code' st']
       r' h'
  have "code' = 0" by simp
  ultimately show ?thesis using r r' h h' by simp
qed

section \<open>The run counters\<close>

text \<open>
  C8, as stated: in every run the final values of the counters are reported exactly once.
  In the run below the storage account has no volume: the process exits with status 0 at
  \<^verbatim>\<open>sys.exit(0)\<close>, before the summary line, and the counter is not reported.
\<close>

theorem counters_reported_counterexample:
  "fst (backup_main (example_env [] [] [] [] []) (example_globals False ''30'')) = 0
   \<and> filter is_summary
        (trace (snd (backup_main (example_env [] [] [] [] []) (example_globals False ''30'')))) = []"
  by (simp add: backup_defs prims preds example_env_def example_globals_def)

text \<open>
  C8, amended. \<^verbatim>\<open>__create_afs_snapshot\<close> adds 1 to \<open>snapshots_created\<close> exactly when
  \<^verbatim>\<open>create_snapshot\<close> is reached and returns, and \<^verbatim>\<open>__delete_snapshot\<close> adds 1 to
  \<open>deleted_snapshots\<close> exactly when \<^verbatim>\<open>delete_snapshot\<close> returns; at the end of a run each counter
  equals the number of such calls that returned, so it is never decremented. The summary
  line is logged once, as the last event and with the final value, in a run that exits with
  status 0 after finding volumes, and not at all in any other run.
\<close>

theorem counters_follow_successful_calls:
  "snapshots_created (snd (create_afs_snapshot env g a cid now adhoc bst)) =
     snapshots_created bst +
       (if afs_validate_afs_snapshots_storage_limit env (tick bst) a AFS_TOTAL_SNAPSHOTS_LIMIT = Inr ()
           \<and> afs_create_snapshot env (Suc (tick bst)) a (retention_days_g g) adhoc = Inr ()
        then 1 else 0)
   \<and> deleted_snapshots (snd (delete_snapshot env s a cid dst)) =
       deleted_snapshots dst + (if afs_delete_snapshot env (Suc (tick dst)) a s = Inr () then 1 else 0)
   \<and> (backup_main env g = (code, st) \<longrightarrow>
        snapshots_created st = int (length (filter create_succeeded (trace st)))
        \<and> length (filter is_summary (trace st)) =
             (if code = 0 \<and> Log Info (No_AFS_volumes_found (object_storage g)) \<notin> set (trace st)
              then 1 else 0)
        \<and> (filter is_summary (trace st) \<noteq> [] \<longrightarrow>
             (\<exists>c. last (trace st) = Log Info (Creation_job_completed (snapshots_created st) c))))
   \<and> (deletion_main env d = (code', st') \<longrightarrow>
        deleted_snapshots st' = int (length (filter delete_succeeded (trace st')))
        \<and> length (filter is_summary (trace st')) =
             (if code' = 0 \<and> Log Info (No_AFS_volumes_found (object_storage d)) \<notin> set (trace st')
              then 1 else 0)
        \<and> (filter is_summary (trace st') \<noteq> [] \<longrightarrow>
             (\<exists>c. last (trace st') = Log Info (Deletion_job_completed (deleted_snapshots st') c))))"
  using create_afs_snapshot_counter [of env g a cid now adhoc bst]
    delete_snapshot_counter [of env s a cid dst]
    backup_main_counters [of env g code st]
    deletion_main_counters [of env d code' st']
  by blast

theorem counters_follow_successful_calls_witness:
  "fst (backup_main (example_env [''vol1'', ''vol2''] [] [''vol1''] [] []) (example_globals False ''30'')) = 0
   \<and> length (filter create_succeeded
        (trace (snd (backup_main (example_env [''vol1'', ''vol2''] [] [''vol1''] [] [])
                       (example_globals False ''30''))))) = 1
   \<and> snapshots_created
        (snd (backup_main (example_env [''vol1'', ''vol2''] [] [''vol1''] [] [])
                (example_globals False ''30''))) = 1
   \<and> length (filter is_summary
        (trace (snd (backup_main (example_env [''vol1'', ''vol2''] [] [''vol1''] [] [])
                       (example_globals False ''30''))))) = 1"
proof -
  let ?env = "example_env [''vol1'', ''vol2''] [] [''vol1''] [] []"
  obtain code st where r: "backup_main ?env (example_globals False ''30'') = (code, st)"
    by (metis prod.exhaust)
  from r have h: "code = 0" "length (filter create_succeeded (trace st)) = 1"
    "Log Info (No_AFS_volumes_found (object_storage (example_globals False ''30''))) \<notin> set (trace st)"
    by (auto simp: backup_defs prims preds example_env_def example_globals_def)
  from counters_follow_successful_calls [of ?env "example_globals False ''30''" _ _ _ _ _ _ _ code st]
       r h
  have "snapshots_created st = 1" "length (filter is_summary (trace st)) = 1"
    by simp_all
  with r h show ?thesis by simp
qed

section \<open>A failure of the soft-delete step\<close>



end
